theory Spec2Isabelle
  imports Main
begin

section \<open>The put.io client library: URL buckets and subscription filters\<close>

text \<open>
  A shallow embedding of \<^verbatim>\<open>src/assets/www/putio.js\<close>: the helper functions
  \<^verbatim>\<open>trim\<close>, \<^verbatim>\<open>isArray\<close>, \<^verbatim>\<open>BaseObj\<close>, \<^verbatim>\<open>BaseApiObj\<close>,
  the constructors \<^verbatim>\<open>Url\<close>, \<^verbatim>\<open>Torrent\<close>, \<^verbatim>\<open>Multipart\<close>, the object
  \<^verbatim>\<open>UrlBucket\<close> with its private \<^verbatim>\<open>_add\<close> and its methods, and the private
  functions \<^verbatim>\<open>addFilter\<close> and \<^verbatim>\<open>removeFilter\<close> of \<^verbatim>\<open>Subscription\<close>.
\<close>

subsection \<open>Strings: \<^verbatim>\<open>trim\<close>, \<^verbatim>\<open>split(',')\<close>, \<^verbatim>\<open>join(',')\<close>\<close>

text \<open>
  A string is a list of code units below 256. The class \<^verbatim>\<open>\s\<close> of the regular
  expression in \<^verbatim>\<open>trim\<close> holds, among those, tab, line feed, vertical tab, form feed,
  carriage return, space and the no-break space.
\<close>

definition is_space :: "char \<Rightarrow> bool" where
  "is_space c = ((of_char c :: nat) \<in> {9, 10, 11, 12, 13, 32, 160})"

text \<open>\<^verbatim>\<open>str.replace(/^\s+|\s+$/g, "")\<close>: the leading run and the trailing run go.\<close>

definition trim :: "string \<Rightarrow> string" where
  "trim str = rev (dropWhile is_space (rev (dropWhile is_space str)))"

text \<open>\<^verbatim>\<open>s.split(',')\<close>: the empty string gives one empty token.\<close>

fun split_comma :: "string \<Rightarrow> string list" where
  "split_comma [] = [[]]"
| "split_comma (c # cs) =
     (if c = CHR '','' then [] # split_comma cs
      else (case split_comma cs of [] \<Rightarrow> [[c]] | t # ts \<Rightarrow> (c # t) # ts))"

text \<open>\<^verbatim>\<open>a.join(',')\<close> on an array of strings.\<close>

fun join_comma :: "string list \<Rightarrow> string" where
  "join_comma [] = []"
| "join_comma [x] = x"
| "join_comma (x # y # zs) = x @ CHR '','' # join_comma (y # zs)"

subsection \<open>\<^verbatim>\<open>Subscription\<close>: \<^verbatim>\<open>addFilter\<close> and \<^verbatim>\<open>removeFilter\<close>\<close>

text \<open>
  \<^verbatim>\<open>for (k = 0; k < args.length; k++) { filters[i++] = args[k]; }\<close> with
  \<^verbatim>\<open>i = filters.length\<close> at the start: each argument is written one past the end.
\<close>

fun append_args :: "string list \<Rightarrow> string list \<Rightarrow> string list" where
  "append_args filters [] = filters"
| "append_args filters (a # args) = append_args (filters @ [a]) args"

text \<open>\<^verbatim>\<open>for (k = 0; k < filters.length; k++) { filters[k] = trim(filters[k]); }\<close>\<close>

fun trim_all :: "string list \<Rightarrow> string list" where
  "trim_all [] = []"
| "trim_all (f # filters) = trim f # trim_all filters"

definition addFilter :: "string \<Rightarrow> string list \<Rightarrow> string" where
  "addFilter filter_str args =
     join_comma (trim_all (append_args (split_comma filter_str) args))"

text \<open>
  The inner loop of \<^verbatim>\<open>removeFilter\<close>: \<^verbatim>\<open>ok\<close> starts true and the loop breaks
  with \<^verbatim>\<open>ok = false\<close> at the first argument whose trimmed form is the trimmed token.
\<close>

fun filter_ok :: "string \<Rightarrow> string list \<Rightarrow> bool" where
  "filter_ok f [] = True"
| "filter_ok f (a # args) = (if trim f = trim a then False else filter_ok f args)"

text \<open>The outer loop: a token that is ok is trimmed and written at \<^verbatim>\<open>new_filters[i++]\<close>.\<close>

fun remove_loop :: "string list \<Rightarrow> string list \<Rightarrow> string list \<Rightarrow> string list" where
  "remove_loop [] args new_filters = new_filters"
| "remove_loop (f # filters) args new_filters =
     remove_loop filters args (if filter_ok f args then new_filters @ [trim f] else new_filters)"

definition removeFilter :: "string \<Rightarrow> string list \<Rightarrow> string" where
  "removeFilter filter_str args = join_comma (remove_loop (split_comma filter_str) args [])"

subsection \<open>JavaScript values\<close>

text \<open>
  The values the bucket handles: the arguments of its callers, the decoded JSON of the
  server, and the objects the library builds. A number is an integer (exact in
  JavaScript below \<open>2 ^ 53\<close>) or \<open>NaN\<close>. An object is the list of its own properties
  in insertion order, which is the order \<^verbatim>\<open>for (k in o)\<close> visits them. The two
  closures the library stores in objects are values of their own:
  \<open>JGetApi api\<close> is \<^verbatim>\<open>function() { return api; }\<close> of \<^verbatim>\<open>BaseApiObj\<close> and
  \<open>JUrlToString\<close> is \<^verbatim>\<open>function() { return this.url; }\<close> of \<^verbatim>\<open>Url\<close>.
\<close>

datatype jsval =
    JUndefined
  | JNull
  | JBool bool
  | JNum int
  | JNaN
  | JStr string
  | JArr "jsval list"
  | JObj "(string \<times> jsval) list"
  | JGetApi jsval
  | JUrlToString

text \<open>
  What a call can end with other than a value: a \<^verbatim>\<open>throw "..."\<close> of the library
  (\<open>Thrown\<close> with the message), a \<open>TypeError\<close> of the language (a property of
  \<^verbatim>\<open>undefined\<close> or \<^verbatim>\<open>null\<close>, a call of something that is no function), and
  \<open>Unmodelled\<close>: the program is defined there but this embedding is not (conversions of
  arrays, objects and non-numeric strings to numbers and strings, properties stored on
  arrays and functions). No statement below about a call that returns covers such an input.
\<close>

datatype error = Thrown string | TypeError | Unmodelled

definition bind_err :: "error + 'a \<Rightarrow> ('a \<Rightarrow> error + 'b) \<Rightarrow> error + 'b" where
  "bind_err m f = (case m of Inl e \<Rightarrow> Inl e | Inr x \<Rightarrow> f x)"

text \<open>Truthiness, as \<^verbatim>\<open>||\<close>, \<^verbatim>\<open>&&\<close> and \<^verbatim>\<open>if\<close> read a value.\<close>

fun truthy :: "jsval \<Rightarrow> bool" where
  "truthy JUndefined = False"
| "truthy JNull = False"
| "truthy (JBool b) = b"
| "truthy (JNum n) = (n \<noteq> 0)"
| "truthy JNaN = False"
| "truthy (JStr s) = (s \<noteq> [])"
| "truthy (JArr xs) = True"
| "truthy (JObj ps) = True"
| "truthy (JGetApi a) = True"
| "truthy JUrlToString = True"

text \<open>\<^verbatim>\<open>a || b\<close>\<close>

definition js_or :: "jsval \<Rightarrow> jsval \<Rightarrow> jsval" where
  "js_or a b = (if truthy a then a else b)"

text \<open>\<^verbatim>\<open>typeof v === 'string'\<close>\<close>

fun is_string :: "jsval \<Rightarrow> bool" where
  "is_string (JStr s) = True"
| "is_string v = False"

text \<open>\<^verbatim>\<open>typeof(input) == 'object' && (input instanceof Array)\<close>\<close>

fun isArray :: "jsval \<Rightarrow> bool" where
  "isArray (JArr xs) = True"
| "isArray v = False"

fun elems :: "jsval \<Rightarrow> jsval list" where
  "elems (JArr xs) = xs"
| "elems v = []"

text \<open>
  Reading a property \<^verbatim>\<open>v.name\<close>. An object answers with its own property or
  \<^verbatim>\<open>undefined\<close>; an array and a string know their \<^verbatim>\<open>length\<close>, a closure of the
  library has no formal parameter, so its \<^verbatim>\<open>length\<close> is 0. The names the program
  reads (\<^verbatim>\<open>url\<close>, \<^verbatim>\<open>length\<close>, \<^verbatim>\<open>items\<close>, \<^verbatim>\<open>parts\<close>, \<^verbatim>\<open>paid_bw\<close>,
  \<^verbatim>\<open>size\<close>, ...) are no array index and none of the inherited properties of
  \<^verbatim>\<open>Object.prototype\<close>, \<^verbatim>\<open>Array.prototype\<close> or \<^verbatim>\<open>Function.prototype\<close> but
  \<^verbatim>\<open>length\<close>; \<open>get_prop\<close> is meant for such names only.
\<close>

fun get_prop :: "jsval \<Rightarrow> string \<Rightarrow> error + jsval" where
  "get_prop JUndefined name = Inl TypeError"
| "get_prop JNull name = Inl TypeError"
| "get_prop (JObj ps) name =
     Inr (case map_of ps name of None \<Rightarrow> JUndefined | Some v \<Rightarrow> v)"
| "get_prop (JArr xs) name =
     Inr (if name = ''length'' then JNum (int (length xs)) else JUndefined)"
| "get_prop (JStr s) name =
     Inr (if name = ''length'' then JNum (int (length s)) else JUndefined)"
| "get_prop (JGetApi a) name = Inr (if name = ''length'' then JNum 0 else JUndefined)"
| "get_prop JUrlToString name = Inr (if name = ''length'' then JNum 0 else JUndefined)"
| "get_prop (JBool b) name = Inr JUndefined"
| "get_prop (JNum n) name = Inr JUndefined"
| "get_prop JNaN name = Inr JUndefined"

text \<open>
  Writing an own property of an object: an existing key keeps its place, a new key goes
  last.
\<close>

fun set_own :: "'k \<Rightarrow> 'v \<Rightarrow> ('k \<times> 'v) list \<Rightarrow> ('k \<times> 'v) list" where
  "set_own k v [] = [(k, v)]"
| "set_own k v (p # ps) = (if fst p = k then (k, v) # ps else p # set_own k v ps)"

text \<open>
  The assignment \<^verbatim>\<open>that.name = v\<close>, giving \<^verbatim>\<open>that\<close> afterwards. The file is not
  in strict mode, so on a primitive value the assignment is silently dropped.
\<close>

fun set_prop :: "jsval \<Rightarrow> string \<Rightarrow> jsval \<Rightarrow> error + jsval" where
  "set_prop (JObj ps) name v = Inr (JObj (set_own name v ps))"
| "set_prop JUndefined name v = Inl TypeError"
| "set_prop JNull name v = Inl TypeError"
| "set_prop (JBool b) name v = Inr (JBool b)"
| "set_prop (JNum n) name v = Inr (JNum n)"
| "set_prop JNaN name v = Inr JNaN"
| "set_prop (JStr s) name v = Inr (JStr s)"
| "set_prop (JArr xs) name v = Inl Unmodelled"
| "set_prop (JGetApi a) name v = Inl Unmodelled"
| "set_prop JUrlToString name v = Inl Unmodelled"

text \<open>\<open>ToNumber\<close> on the primitive values; \<open>None\<close> is \<open>NaN\<close>.\<close>

fun to_number :: "jsval \<Rightarrow> error + int option" where
  "to_number JUndefined = Inr None"
| "to_number JNull = Inr (Some 0)"
| "to_number (JBool b) = Inr (Some (if b then 1 else 0))"
| "to_number (JNum n) = Inr (Some n)"
| "to_number JNaN = Inr None"
| "to_number v = Inl Unmodelled"

text \<open>
  \<^verbatim>\<open>a < b\<close> where the operands convert to numbers (\<^verbatim>\<open>a > b\<close> is \<^verbatim>\<open>b < a\<close>):
  every comparison with \<open>NaN\<close> is false.
\<close>

definition js_lt :: "jsval \<Rightarrow> jsval \<Rightarrow> error + bool" where
  "js_lt a b =
     bind_err (to_number a) (\<lambda>x. bind_err (to_number b) (\<lambda>y.
       Inr (case (x, y) of (Some m, Some n) \<Rightarrow> m < n | _ \<Rightarrow> False)))"

text \<open>\<^verbatim>\<open>a + b\<close> where the operands convert to numbers.\<close>

definition js_plus :: "jsval \<Rightarrow> jsval \<Rightarrow> error + jsval" where
  "js_plus a b =
     bind_err (to_number a) (\<lambda>x. bind_err (to_number b) (\<lambda>y.
       Inr (case (x, y) of (Some m, Some n) \<Rightarrow> JNum (m + n) | _ \<Rightarrow> JNaN)))"

text \<open>
  The method call \<^verbatim>\<open>v.toString()\<close>: a string is itself; an object made by
  \<^verbatim>\<open>Url\<close> answers with its \<^verbatim>\<open>url\<close>; an object with no \<^verbatim>\<open>toString\<close> of its
  own inherits the one of \<^verbatim>\<open>Object.prototype\<close>.
\<close>

fun toString_call :: "jsval \<Rightarrow> error + jsval" where
  "toString_call JUndefined = Inl TypeError"
| "toString_call JNull = Inl TypeError"
| "toString_call (JStr s) = Inr (JStr s)"
| "toString_call (JBool b) = Inr (JStr (if b then ''true'' else ''false''))"
| "toString_call JNaN = Inr (JStr ''NaN'')"
| "toString_call (JObj ps) =
     (case map_of ps ''toString'' of
        None \<Rightarrow> Inr (JStr ''[object Object]'')
      | Some JUrlToString \<Rightarrow> get_prop (JObj ps) ''url''
      | Some (JGetApi a) \<Rightarrow> Inr a
      | Some v \<Rightarrow> Inl TypeError)"
| "toString_call v = Inl Unmodelled"

text \<open>
  The elements \<^verbatim>\<open>X[0]\<close>, ..., \<^verbatim>\<open>X[X.length - 1]\<close> that a loop
  \<^verbatim>\<open>for (k = 0; k < X.length; k++)\<close> visits: for a value with no \<^verbatim>\<open>length\<close> the
  test \<^verbatim>\<open>0 < undefined\<close> fails at once, and a string is indexed by its characters.
\<close>

fun loop_elems :: "jsval \<Rightarrow> error + jsval list" where
  "loop_elems JUndefined = Inl TypeError"
| "loop_elems JNull = Inl TypeError"
| "loop_elems (JArr xs) = Inr xs"
| "loop_elems (JStr s) = Inr (map (\<lambda>c. JStr [c]) s)"
| "loop_elems (JObj ps) =
     (case map_of ps ''length'' of None \<Rightarrow> Inr [] | Some v \<Rightarrow> Inl Unmodelled)"
| "loop_elems v = Inr []"

subsection \<open>The objects of the library\<close>

text \<open>\<^verbatim>\<open>BaseObj\<close>: \<^verbatim>\<open>args = args || {}; return args;\<close>\<close>

definition BaseObj :: "jsval \<Rightarrow> jsval" where
  "BaseObj args = js_or args (JObj [])"

text \<open>\<^verbatim>\<open>BaseApiObj\<close> stores the closure \<^verbatim>\<open>getApi\<close> in the object itself.\<close>

definition BaseApiObj :: "jsval \<Rightarrow> jsval \<Rightarrow> error + jsval" where
  "BaseApiObj api args = set_prop (BaseObj args) ''getApi'' (JGetApi api)"

definition Url :: "jsval \<Rightarrow> jsval \<Rightarrow> error + jsval" where
  "Url api args = bind_err (BaseApiObj api args) (\<lambda>that. set_prop that ''toString'' JUrlToString)"

definition Torrent :: "jsval \<Rightarrow> jsval \<Rightarrow> error + jsval" where
  "Torrent api args = BaseApiObj api args"

definition Multipart :: "jsval \<Rightarrow> jsval \<Rightarrow> error + jsval" where
  "Multipart api args = BaseApiObj api args"

subsection \<open>The state of a bucket\<close>

text \<open>
  The variables that the closure of \<^verbatim>\<open>UrlBucket\<close> captures. \<^verbatim>\<open>_links\<close> is an
  object whose properties are arrays: a list of keys, each once, with their arrays, in
  the order the object literal writes them. \<open>api\<close> is what \<^verbatim>\<open>this.getApi()\<close>
  returns.
\<close>

type_synonym linkmap = "(string \<times> jsval list) list"

record bucket =
  api :: jsval
  last_analyzed_bw_avail :: jsval
  last_analyzed_disk_avail :: jsval
  req_space :: jsval
  paid_bw :: jsval
  links :: linkmap

text \<open>
  A call on a bucket runs from a state and ends with a value or an exception, and with
  the state it has reached by then.
\<close>

type_synonym 'a call = "bucket \<Rightarrow> (error + 'a) \<times> bucket"

definition ret :: "'a \<Rightarrow> 'a call" where
  "ret x = (\<lambda>b. (Inr x, b))"

definition throw :: "error \<Rightarrow> 'a call" where
  "throw e = (\<lambda>b. (Inl e, b))"

definition lift :: "error + 'a \<Rightarrow> 'a call" where
  "lift r = (\<lambda>b. (r, b))"

definition bnd :: "'a call \<Rightarrow> ('a \<Rightarrow> 'b call) \<Rightarrow> 'b call" where
  "bnd m f = (\<lambda>b. case m b of (Inl e, b') \<Rightarrow> (Inl e, b') | (Inr x, b') \<Rightarrow> f x b')"

definition getApi :: "jsval call" where
  "getApi = (\<lambda>b. (Inr (api b), b))"

definition get_links :: "linkmap call" where
  "get_links = (\<lambda>b. (Inr (links b), b))"

text \<open>\<^verbatim>\<open>_links.name\<close>\<close>

definition links_get :: "linkmap \<Rightarrow> string \<Rightarrow> jsval" where
  "links_get l name = (case map_of l name of None \<Rightarrow> JUndefined | Some xs \<Rightarrow> JArr xs)"

text \<open>
  \<^verbatim>\<open>_links.key[_links.key.length] = v\<close>: a \<open>TypeError\<close> if \<^verbatim>\<open>_links\<close> has no
  such property.
\<close>

definition push :: "string \<Rightarrow> jsval \<Rightarrow> unit call" where
  "push key v = (\<lambda>b.
     case map_of (links b) key of
       None \<Rightarrow> (Inl TypeError, b)
     | Some xs \<Rightarrow> (Inr (), b\<lparr>links := set_own key (xs @ [v]) (links b)\<rparr>))"

fun push_all :: "string \<Rightarrow> jsval list \<Rightarrow> unit call" where
  "push_all key [] = ret ()"
| "push_all key (x # xs) = bnd (push key x) (\<lambda>_. push_all key xs)"

subsection \<open>\<^verbatim>\<open>UrlBucket\<close>: \<^verbatim>\<open>_add\<close> and the constructor\<close>

text \<open>
  The body of \<^verbatim>\<open>if (info.length > 0)\<close>: each variable takes the property of
  \<^verbatim>\<open>info\<close>, or keeps its value when that is falsy.
\<close>

definition update_info :: "jsval \<Rightarrow> unit call" where
  "update_info info =
     bnd (lift (get_prop info ''last_analyzed_bw_avail'')) (\<lambda>bw.
     bnd (lift (get_prop info ''last_analyzed_disk_avail'')) (\<lambda>disk.
     bnd (lift (get_prop info ''req_space'')) (\<lambda>rs.
     bnd (lift (get_prop info ''paid_bw'')) (\<lambda>pb.
     (\<lambda>b. (Inr (), b\<lparr>last_analyzed_bw_avail := js_or bw (last_analyzed_bw_avail b),
                     last_analyzed_disk_avail := js_or disk (last_analyzed_disk_avail b),
                     req_space := js_or rs (req_space b),
                     paid_bw := js_or pb (paid_bw b)\<rparr>))))))"

text \<open>
  \<^verbatim>\<open>_add(singleurl, torrenturl, multiparturl, error, info)\<close>. An argument left out is
  \<^verbatim>\<open>undefined\<close>.
\<close>

definition add_internal :: "jsval \<Rightarrow> jsval \<Rightarrow> jsval \<Rightarrow> jsval \<Rightarrow> jsval \<Rightarrow> unit call" where
  "add_internal singleurl0 torrenturl0 multiparturl0 error0 info0 =
     (let singleurl = js_or singleurl0 (JArr []);
          torrenturl = js_or torrenturl0 (JArr []);
          multiparturl = js_or multiparturl0 (JArr []);
          err = js_or error0 (JArr []);
          info = js_or info0 (JArr [])
      in if \<not> (isArray singleurl \<and> isArray torrenturl \<and> isArray multiparturl \<and> isArray err)
         then throw (Thrown ''Add method takes only arrays as arguments'')
         else
           bnd (push_all ''singleurl'' (elems singleurl)) (\<lambda>_.
           bnd (push_all ''torrenturl'' (elems torrenturl)) (\<lambda>_.
           bnd (push_all ''multiparturl'' (elems multiparturl)) (\<lambda>_.
           bnd (push_all ''error'' (elems err)) (\<lambda>_.
           bnd (lift (get_prop info ''length'')) (\<lambda>n.
           bnd (lift (js_lt (JNum 0) n)) (\<lambda>positive.
           if positive then update_info info else ret ())))))))"

text \<open>The object literal \<^verbatim>\<open>{ multiparturl : [], torrenturl : [], singleurl : [], error : [] }\<close>\<close>

definition empty_links :: linkmap where
  "empty_links = [(''multiparturl'', []), (''torrenturl'', []), (''singleurl'', []), (''error'', [])]"

definition new_bucket :: "jsval \<Rightarrow> bucket" where
  "new_bucket a =
     \<lparr>api = a, last_analyzed_bw_avail = JNull, last_analyzed_disk_avail = JNull,
      req_space = JNull, paid_bw = JNull, links = empty_links\<rparr>"

text \<open>
  \<^verbatim>\<open>UrlBucket(api, singleurl, torrenturl, multiparturl)\<close>: the variables are
  initialised and \<^verbatim>\<open>_add(singleurl, torrenturl, multiparturl)\<close> runs.
  \<^verbatim>\<open>createBucket\<close> calls it as \<^verbatim>\<open>UrlBucket(this)\<close>.
\<close>

definition UrlBucket :: "jsval \<Rightarrow> jsval \<Rightarrow> jsval \<Rightarrow> jsval \<Rightarrow> (error + unit) \<times> bucket" where
  "UrlBucket a singleurl torrenturl multiparturl =
     add_internal singleurl torrenturl multiparturl JUndefined JUndefined (new_bucket a)"

definition createBucket :: "jsval \<Rightarrow> (error + unit) \<times> bucket" where
  "createBucket a = UrlBucket a JUndefined JUndefined JUndefined"

subsection \<open>The accessors\<close>

definition getReqSpace :: "bucket \<Rightarrow> jsval" where
  "getReqSpace b = req_space b"

definition getPaidBw :: "bucket \<Rightarrow> jsval" where
  "getPaidBw b = paid_bw b"

definition getSingleUrls :: "bucket \<Rightarrow> jsval" where
  "getSingleUrls b = links_get (links b) ''singleurl''"

definition getTorrentUrls :: "bucket \<Rightarrow> jsval" where
  "getTorrentUrls b = links_get (links b) ''torrenturl''"

definition getMultipartUrls :: "bucket \<Rightarrow> jsval" where
  "getMultipartUrls b = links_get (links b) ''multiparturl''"

definition getErrorUrls :: "bucket \<Rightarrow> jsval" where
  "getErrorUrls b = links_get (links b) ''errorurl''"

text \<open>\<^verbatim>\<open>getReport\<close>: under \<^verbatim>\<open>"Urls"\<close> it hands out \<^verbatim>\<open>_links\<close> itself.\<close>

definition getReport :: "bucket \<Rightarrow> jsval" where
  "getReport b =
     JObj [(''Current Available Disk Space'', last_analyzed_disk_avail b),
           (''Current Available Bandwidth'', last_analyzed_bw_avail b),
           (''Required Space'', req_space b),
           (''Bandwidth to be deducted from quota'', paid_bw b),
           (''Urls'', JObj (map (\<lambda>(k, xs). (k, JArr xs)) (links b)))]"

subsection \<open>\<^verbatim>\<open>add\<close>\<close>

text \<open>The loop of \<^verbatim>\<open>add\<close> over an array: one \<^verbatim>\<open>Url\<close> per element, whatever it is.\<close>

fun add_each :: "jsval list \<Rightarrow> unit call" where
  "add_each [] = ret ()"
| "add_each (u # us) =
     bnd getApi (\<lambda>a.
     bnd (lift (Url a (JObj [(''url'', u)]))) (\<lambda>l.
     bnd (push ''singleurl'' l) (\<lambda>_. add_each us)))"

definition add :: "jsval \<Rightarrow> linkmap call" where
  "add url =
     (if truthy url \<and> is_string url then
        bnd getApi (\<lambda>a.
        bnd (lift (Url a (JObj [(''url'', url)]))) (\<lambda>l.
        bnd (push ''singleurl'' l) (\<lambda>_. get_links)))
      else if truthy url \<and> isArray url then
        bnd (add_each (elems url)) (\<lambda>_. get_links)
      else throw (Thrown ''Add method takes only a string or an array as argument''))"

subsection \<open>\<^verbatim>\<open>fetch\<close> and \<^verbatim>\<open>analyze\<close>: the requests\<close>

text \<open>
  A call \<^verbatim>\<open>callServerMethod(path, method, callback, params)\<close> of the transport, as
  the bucket makes it. \<^verbatim>\<open>fetch\<close> and \<^verbatim>\<open>analyze\<close> end with the one request they
  hand to the transport, or with an exception and no request; they leave the variables
  of the bucket alone until the response arrives. The callback that \<^verbatim>\<open>fetch\<close> gives
  to the transport wraps each result in a \<^verbatim>\<open>Transfer\<close> and writes no variable of the
  bucket; it is left out.
\<close>

record request =
  req_path :: string
  req_method :: string
  req_params :: "(string \<times> jsval) list"

text \<open>
  \<^verbatim>\<open>for (i = 0; i < _links[key].length; i++) go_fetch[go_fetch.length] = _links[key][i].url\<close>
\<close>

fun collect_urls :: "jsval list \<Rightarrow> jsval list \<Rightarrow> error + jsval list" where
  "collect_urls [] go = Inr go"
| "collect_urls (x # xs) go =
     bind_err (get_prop x ''url'') (\<lambda>u. collect_urls xs (go @ [u]))"

text \<open>\<^verbatim>\<open>for (key in _links)\<close>, skipping the key \<^verbatim>\<open>error\<close>.\<close>

fun fetch_keys :: "linkmap \<Rightarrow> jsval list \<Rightarrow> error + jsval list" where
  "fetch_keys [] go = Inr go"
| "fetch_keys ((key, arr) # rest) go =
     (if key = ''error'' then fetch_keys rest go
      else bind_err (collect_urls arr go) (\<lambda>go'. fetch_keys rest go'))"

definition fetch :: "request call" where
  "fetch = (\<lambda>b.
     (bind_err (fetch_keys (links b) []) (\<lambda>go_fetch.
        Inr \<lparr>req_path = ''/transfers'', req_method = ''add'',
             req_params = [(''links'', JArr go_fetch)]\<rparr>), b))"

text \<open>
  \<^verbatim>\<open>for (k = 0; k < links.length; k++) go_analyze[go_analyze.length] = links[k].toString()\<close>
\<close>

fun candidate_loop :: "jsval list \<Rightarrow> jsval list \<Rightarrow> error + jsval list" where
  "candidate_loop [] go = Inr go"
| "candidate_loop (l # ls) go =
     bind_err (toString_call l) (\<lambda>s. candidate_loop ls (go @ [s]))"

text \<open>
  \<^verbatim>\<open>for (i = 0; i < _links.length; i++) go_analyze[go_analyze.length] = _links[k][i].url\<close>:
  the bound is the property \<^verbatim>\<open>length\<close> of the object \<^verbatim>\<open>_links\<close>, not of the array
  \<^verbatim>\<open>_links[k]\<close>. The second argument holds \<^verbatim>\<open>_links[k][i]\<close>, \<^verbatim>\<open>_links[k][i+1]\<close>,
  ...; past the end of the array the element is \<^verbatim>\<open>undefined\<close>, whose \<^verbatim>\<open>url\<close>
  is a \<open>TypeError\<close>.
\<close>

fun staged_loop :: "jsval \<Rightarrow> jsval list \<Rightarrow> int \<Rightarrow> jsval list \<Rightarrow> error + jsval list" where
  "staged_loop bound [] i go =
     bind_err (js_lt (JNum i) bound) (\<lambda>more. if more then Inl TypeError else Inr go)"
| "staged_loop bound (x # xs) i go =
     bind_err (js_lt (JNum i) bound) (\<lambda>more.
       if more then bind_err (get_prop x ''url'') (\<lambda>u. staged_loop bound xs (i + 1) (go @ [u]))
       else Inr go)"

text \<open>\<^verbatim>\<open>for (k in _links)\<close>, skipping the key \<^verbatim>\<open>error\<close>.\<close>

fun staged_keys :: "jsval \<Rightarrow> linkmap \<Rightarrow> jsval list \<Rightarrow> error + jsval list" where
  "staged_keys bound [] go = Inr go"
| "staged_keys bound ((k, arr) # rest) go =
     (if k = ''error'' then staged_keys bound rest go
      else bind_err (staged_loop bound arr 0 go) (\<lambda>go'. staged_keys bound rest go'))"

definition analyze :: "jsval \<Rightarrow> request call" where
  "analyze links0 = (\<lambda>b.
     let ls = js_or links0 (JArr []) in
     if \<not> isArray ls then
       (Inl (Thrown (''Analyze method takes a list. Use '' @
                     ''extract_urls() to convert string of urls to a list.'')), b)
     else
       (bind_err (candidate_loop (elems ls) []) (\<lambda>go.
        bind_err (staged_keys (links_get (links b) ''length'') (links b) go) (\<lambda>go_analyze.
          Inr \<lparr>req_path = ''/urls'', req_method = ''analyze'',
               req_params = [(''links'', JArr go_analyze)]\<rparr>)), b))"

subsection \<open>\<^verbatim>\<open>analyze\<close>: the callback on the response\<close>

text \<open>The local variables of the callback.\<close>

record locals =
  multipart_urls :: "jsval list"
  single_urls :: "jsval list"
  torrent_urls :: "jsval list"
  error_urls :: "jsval list"
  sum_paid_bw :: jsval
  sum_req_space :: jsval

text \<open>The inner loop over \<^verbatim>\<open>r.parts\<close>.\<close>

fun parts_loop :: "jsval \<Rightarrow> jsval list \<Rightarrow> jsval list \<Rightarrow> error + jsval list" where
  "parts_loop a [] acc = Inr acc"
| "parts_loop a (p # ps) acc =
     bind_err (Multipart a p) (\<lambda>m. parts_loop a ps (acc @ [m]))"

text \<open>The loop over \<^verbatim>\<open>results.items.multiparturl\<close>.\<close>

fun multipart_loop :: "jsval \<Rightarrow> jsval list \<Rightarrow> locals \<Rightarrow> error + locals" where
  "multipart_loop a [] loc = Inr loc"
| "multipart_loop a (r # rs) loc =
     bind_err (get_prop r ''paid_bw'') (\<lambda>pb.
     bind_err (js_plus (sum_paid_bw loc) pb) (\<lambda>paid.
     bind_err (get_prop r ''size'') (\<lambda>sz.
     bind_err (js_plus (sum_req_space loc) sz) (\<lambda>req.
     bind_err (get_prop r ''parts'') (\<lambda>parts.
     bind_err (loop_elems parts) (\<lambda>ps.
     bind_err (parts_loop a ps (multipart_urls loc)) (\<lambda>mu.
       multipart_loop a rs
         (loc\<lparr>sum_paid_bw := paid, sum_req_space := req, multipart_urls := mu\<rparr>))))))))"

text \<open>The loop over \<^verbatim>\<open>results.items.torrent\<close>.\<close>

fun torrent_loop :: "jsval \<Rightarrow> jsval list \<Rightarrow> locals \<Rightarrow> error + locals" where
  "torrent_loop a [] loc = Inr loc"
| "torrent_loop a (r # rs) loc =
     bind_err (Torrent a r) (\<lambda>t.
     bind_err (get_prop r ''paid_bw'') (\<lambda>pb.
     bind_err (js_plus (sum_paid_bw loc) pb) (\<lambda>paid.
     bind_err (get_prop r ''size'') (\<lambda>sz.
     bind_err (js_plus (sum_req_space loc) sz) (\<lambda>req.
       torrent_loop a rs
         (loc\<lparr>torrent_urls := torrent_urls loc @ [t], sum_paid_bw := paid,
              sum_req_space := req\<rparr>))))))"

text \<open>The loop over \<^verbatim>\<open>results.items.singleurl\<close>.\<close>

fun single_loop :: "jsval \<Rightarrow> jsval list \<Rightarrow> locals \<Rightarrow> error + locals" where
  "single_loop a [] loc = Inr loc"
| "single_loop a (r # rs) loc =
     bind_err (Url a r) (\<lambda>u.
     bind_err (get_prop r ''paid_bw'') (\<lambda>pb.
     bind_err (js_plus (sum_paid_bw loc) pb) (\<lambda>paid.
     bind_err (get_prop r ''size'') (\<lambda>sz.
     bind_err (js_plus (sum_req_space loc) sz) (\<lambda>req.
       single_loop a rs
         (loc\<lparr>single_urls := single_urls loc @ [u], sum_paid_bw := paid,
              sum_req_space := req\<rparr>))))))"

text \<open>
  The loop over \<^verbatim>\<open>results.items.error\<close>: \<^verbatim>\<open>Url(results.items.error[k])\<close> passes
  the record as the first argument, \<^verbatim>\<open>api\<close>, and leaves \<^verbatim>\<open>args\<close> out.
\<close>

fun error_loop :: "jsval list \<Rightarrow> locals \<Rightarrow> error + locals" where
  "error_loop [] loc = Inr loc"
| "error_loop (r # rs) loc =
     bind_err (Url r JUndefined) (\<lambda>u.
       error_loop rs (loc\<lparr>error_urls := error_urls loc @ [u]\<rparr>))"

definition analyze_locals :: "jsval \<Rightarrow> jsval \<Rightarrow> error + locals" where
  "analyze_locals a results =
     bind_err (get_prop results ''items'') (\<lambda>items.
     bind_err (get_prop items ''multiparturl'') (\<lambda>m.
     bind_err (loop_elems m) (\<lambda>ms.
     bind_err (multipart_loop a ms
        \<lparr>multipart_urls = [], single_urls = [], torrent_urls = [], error_urls = [],
         sum_paid_bw = JNum 0, sum_req_space = JNum 0\<rparr>) (\<lambda>loc1.
     bind_err (get_prop items ''torrent'') (\<lambda>t.
     bind_err (loop_elems t) (\<lambda>ts.
     bind_err (torrent_loop a ts loc1) (\<lambda>loc2.
     bind_err (get_prop items ''singleurl'') (\<lambda>s.
     bind_err (loop_elems s) (\<lambda>ss.
     bind_err (single_loop a ss loc2) (\<lambda>loc3.
     bind_err (get_prop items ''error'') (\<lambda>e.
     bind_err (loop_elems e) (\<lambda>es.
       error_loop es loc3))))))))))))"

text \<open>
  The object literal that the callback passes to \<^verbatim>\<open>_add\<close> as \<^verbatim>\<open>info\<close>:
  \<^verbatim>\<open>{last_analyzed_disk_avail : ..., last_analyzed_bw_avail : ..., paid_bw : ..., req_space : ...}\<close>
\<close>

definition info_literal :: "jsval \<Rightarrow> jsval \<Rightarrow> jsval \<Rightarrow> jsval \<Rightarrow> jsval" where
  "info_literal d w p r =
     JObj [(''last_analyzed_disk_avail'', d), (''last_analyzed_bw_avail'', w),
           (''paid_bw'', p), (''req_space'', r)]"

text \<open>
  The callback that \<^verbatim>\<open>analyze\<close> gives to the transport, run on the
  \<^verbatim>\<open>results\<close> of a response: the local lists are filled, \<^verbatim>\<open>_links\<close> is reset
  and \<^verbatim>\<open>_add\<close> is called with the lists and the object literal of the four figures.
  The last statement hands the bucket to the caller's own \<^verbatim>\<open>callback\<close>, which is
  not part of the library.
\<close>

definition analyze_callback :: "jsval \<Rightarrow> unit call" where
  "analyze_callback results =
     bnd getApi (\<lambda>a.
     bnd (lift (analyze_locals a results)) (\<lambda>loc.
     bnd (\<lambda>b. (Inr (), b\<lparr>links := empty_links\<rparr>)) (\<lambda>_.
     bnd (lift (get_prop results ''disk_avail'')) (\<lambda>disk.
     bnd (lift (get_prop results ''bw_avail'')) (\<lambda>bw.
       add_internal (JArr (single_urls loc)) (JArr (torrent_urls loc))
         (JArr (multipart_urls loc)) (JArr (error_urls loc))
         (info_literal disk bw (sum_paid_bw loc) (sum_req_space loc)))))))"

subsection \<open>Histories of a bucket\<close>

text \<open>
  What can happen to a bucket after its construction: a call of \<^verbatim>\<open>add\<close>, of
  \<^verbatim>\<open>fetch\<close> or of \<^verbatim>\<open>analyze\<close>, and the arrival of a response of the server at
  the callback of \<^verbatim>\<open>analyze\<close>. An exception leaves the bucket in the state reached
  when it was thrown, and the history goes on from there. A history with a step that
  this embedding does not model has no final state here.
\<close>

datatype action = Add jsval | Fetch | Analyze jsval | Response jsval

definition forget :: "'a call \<Rightarrow> unit call" where
  "forget m = (\<lambda>b. case m b of (Inl e, b') \<Rightarrow> (Inl e, b') | (Inr x, b') \<Rightarrow> (Inr (), b'))"

fun step :: "action \<Rightarrow> unit call" where
  "step (Add url) = forget (add url)"
| "step Fetch = forget fetch"
| "step (Analyze ls) = forget (analyze ls)"
| "step (Response results) = analyze_callback results"

fun run :: "action list \<Rightarrow> bucket \<Rightarrow> bucket option" where
  "run [] b = Some b"
| "run (x # xs) b =
     (if fst (step x b) = Inl Unmodelled then None else run xs (snd (step x b)))"

text \<open>A sequence of calls of \<^verbatim>\<open>add\<close>, stopping at the first exception.\<close>

fun adds :: "jsval list \<Rightarrow> unit call" where
  "adds [] = ret ()"
| "adds (u # us) = bnd (add u) (\<lambda>_. adds us)"

subsection \<open>Notions for the statements\<close>

text \<open>The keys of \<^verbatim>\<open>_links\<close>, in the order of the object literal.\<close>

definition links_ok :: "linkmap \<Rightarrow> bool" where
  "links_ok l = (map fst l = [''multiparturl'', ''torrenturl'', ''singleurl'', ''error''])"

definition aggregates :: "bucket \<Rightarrow> jsval \<times> jsval \<times> jsval \<times> jsval" where
  "aggregates b =
     (req_space b, paid_bw b, last_analyzed_disk_avail b, last_analyzed_bw_avail b)"

definition bucket_inv :: "bucket \<Rightarrow> bool" where
  "bucket_inv b = (links_ok (links b) \<and> aggregates b = (JNull, JNull, JNull, JNull))"

text \<open>A call that writes no variable of the bucket but \<^verbatim>\<open>_links\<close>.\<close>

definition only_links :: "'a call \<Rightarrow> bool" where
  "only_links m = (\<forall>b. \<exists>l. snd (m b) = b\<lparr>links := l\<rparr>)"

definition preserves :: "(bucket \<Rightarrow> bool) \<Rightarrow> 'a call \<Rightarrow> bool" where
  "preserves P m = (\<forall>b. P b \<longrightarrow> P (snd (m b)))"

text \<open>\<^verbatim>\<open>v.name\<close> where it does not throw, and the elements a loop over \<^verbatim>\<open>v\<close> visits.\<close>

definition field :: "jsval \<Rightarrow> string \<Rightarrow> jsval" where
  "field v name = (case get_prop v name of Inl e \<Rightarrow> JUndefined | Inr x \<Rightarrow> x)"

definition visited :: "jsval \<Rightarrow> jsval list" where
  "visited v = (case loop_elems v of Inl e \<Rightarrow> [] | Inr xs \<Rightarrow> xs)"

text \<open>\<^verbatim>\<open>x.url\<close>\<close>

definition url_of :: "jsval \<Rightarrow> jsval" where
  "url_of x = field x ''url''"

text \<open>
  The object \<^verbatim>\<open>Url(api, {'url' : s})\<close> that \<^verbatim>\<open>add\<close> stores for a string, and the
  object \<^verbatim>\<open>Url(r)\<close> that the callback stores for an error record.
\<close>

definition locator :: "jsval \<Rightarrow> string \<Rightarrow> jsval" where
  "locator a s =
     JObj [(''url'', JStr s), (''getApi'', JGetApi a), (''toString'', JUrlToString)]"

definition error_entry :: "jsval \<Rightarrow> jsval" where
  "error_entry r = JObj [(''getApi'', JGetApi r), (''toString'', JUrlToString)]"

text \<open>
  What a constructor returns where it returns, and the entries that the callback of
  \<^verbatim>\<open>analyze\<close> stores for a record of the response: \<^verbatim>\<open>Url(api, r)\<close> for a
  single record, \<^verbatim>\<open>Torrent(api, r)\<close> for a torrent record, and
  \<^verbatim>\<open>Multipart(api, r.parts[i])\<close> for each part of a multipart record.
\<close>

definition made :: "error + jsval \<Rightarrow> jsval" where
  "made r = (case r of Inl e \<Rightarrow> JUndefined | Inr x \<Rightarrow> x)"

definition url_entry :: "jsval \<Rightarrow> jsval \<Rightarrow> jsval" where
  "url_entry a r = made (Url a r)"

definition torrent_entry :: "jsval \<Rightarrow> jsval \<Rightarrow> jsval" where
  "torrent_entry a r = made (Torrent a r)"

definition part_entry :: "jsval \<Rightarrow> jsval \<Rightarrow> jsval" where
  "part_entry a p = made (Multipart a p)"

definition multipart_entries :: "jsval \<Rightarrow> jsval \<Rightarrow> jsval list" where
  "multipart_entries a r = map (part_entry a) (visited (field r ''parts''))"

text \<open>
  An argument of \<^verbatim>\<open>add\<close> that is a non-empty string or an array of strings, and the
  strings it holds.
\<close>

fun url_arg :: "jsval \<Rightarrow> bool" where
  "url_arg (JStr s) = (s \<noteq> [])"
| "url_arg (JArr xs) = list_all is_string xs"
| "url_arg v = False"

fun str_of :: "jsval \<Rightarrow> string" where
  "str_of (JStr s) = s"
| "str_of v = []"

fun raw_urls :: "jsval \<Rightarrow> string list" where
  "raw_urls (JStr s) = [s]"
| "raw_urls (JArr xs) = map str_of xs"
| "raw_urls v = []"

subsection \<open>Examples\<close>

definition example_api :: jsval where
  "example_api = JObj [(''user_name'', JStr ''u'')]"

text \<open>The bucket of \<^verbatim>\<open>createBucket\<close>.\<close>

definition fresh :: bucket where
  "fresh = snd (createBucket example_api)"

text \<open>
  A response with one multipart record of two parts, one torrent, one single link and
  one rejected link.
\<close>

definition example_results :: jsval where
  "example_results =
     JObj [(''items'', JObj
         [(''multiparturl'', JArr [JObj [(''paid_bw'', JNum 7), (''size'', JNum 9),
             (''parts'', JArr [JObj [(''url'', JStr ''p1'')], JObj [(''url'', JStr ''p2'')]])]]),
          (''torrent'', JArr [JObj [(''url'', JStr ''t1''), (''paid_bw'', JNum 1),
             (''size'', JNum 2)]]),
          (''singleurl'', JArr [JObj [(''url'', JStr ''s1''), (''paid_bw'', JNum 3),
             (''size'', JNum 5)]]),
          (''error'', JArr [JObj [(''url'', JStr ''e1''), (''name'', JStr ''n''),
             (''error'', JStr ''bad link'')]])]),
       (''disk_avail'', JNum 100), (''bw_avail'', JNum 200)]"

text \<open>The response to an analysis of one torrent link.\<close>

definition torrent_results :: "string \<Rightarrow> jsval" where
  "torrent_results u =
     JObj [(''items'', JObj
         [(''multiparturl'', JArr []),
          (''torrent'', JArr [JObj [(''url'', JStr u), (''paid_bw'', JNum 0),
             (''size'', JNum 4)]]),
          (''singleurl'', JArr []),
          (''error'', JArr [])]),
       (''disk_avail'', JNum 100), (''bw_avail'', JNum 200)]"

text \<open>The fresh bucket after \<^verbatim>\<open>add("http://a")\<close>.\<close>

definition staged :: bucket where
  "staged = snd (add (JStr ''http://a'') fresh)"

text \<open>The fresh bucket after the callback has run on the example response.\<close>

definition analyzed :: bucket where
  "analyzed = snd (analyze_callback example_results fresh)"

text \<open>
  Two analyses in a row, of \<^verbatim>\<open>a.torrent\<close> and then of \<^verbatim>\<open>b.torrent\<close>: the
  states after the first and after the second response.
\<close>

definition after_a :: bucket where
  "after_a = snd (analyze_callback (torrent_results ''a.torrent'') fresh)"

definition after_b :: bucket where
  "after_b = snd (analyze_callback (torrent_results ''b.torrent'') after_a)"

section \<open>Properties\<close>

subsection \<open>Filter lists\<close>

lemma append_args_eq: "append_args filters args = filters @ args"
  by (induction args arbitrary: filters) simp_all

lemma trim_all_eq: "trim_all filters = map trim filters"
  by (induction filters) simp_all

lemma filter_ok_iff: "filter_ok f args \<longleftrightarrow> trim f \<notin> set (map trim args)"
  by (induction args) auto

lemma remove_loop_eq:
  "remove_loop filters args acc =
     acc @ filter (\<lambda>t. t \<notin> set (map trim args)) (map trim filters)"
  by (induction filters arbitrary: acc) (simp_all add: filter_ok_iff)

lemma trim_jazz: "trim ''jazz'' = ''jazz''"
  by (simp add: trim_def is_space_def)

lemma trim_mp3: "trim ''mp3'' = ''mp3''" "trim '' mp3'' = ''mp3''"
  by (simp_all add: trim_def is_space_def)

lemma trim_rock: "trim ''rock'' = ''rock''"
  by (simp add: trim_def is_space_def)

text \<open>
  C7. Merging the additions \<open>[rock]\<close> into \<open>jazz, mp3\<close> gives exactly
  \<open>jazz,mp3,rock\<close>, and removing \<open>[mp3]\<close> from \<open>jazz,mp3,rock\<close> gives exactly
  \<open>jazz,rock\<close>. In general the merge trims every token of the split string and of the
  additions and joins them with commas, keeping duplicates; the removal keeps, in order
  and trimmed, the tokens whose trimmed form is none of the trimmed removals (compared
  with \<open>===\<close>, so case-sensitively).
\<close>

theorem filter_merge_remove:
  "addFilter ''jazz, mp3'' [''rock''] = ''jazz,mp3,rock''
   \<and> removeFilter ''jazz,mp3,rock'' [''mp3''] = ''jazz,rock''
   \<and> addFilter s extra = join_comma (map trim (split_comma s @ extra))
   \<and> removeFilter s rems =
       join_comma (filter (\<lambda>t. t \<notin> set (map trim rems)) (map trim (split_comma s)))"
proof -
  have a: "addFilter s' extra' = join_comma (map trim (split_comma s' @ extra'))" for s' extra'
    by (simp add: addFilter_def append_args_eq trim_all_eq)
  have r: "removeFilter s' rems' =
      join_comma (filter (\<lambda>t. t \<notin> set (map trim rems')) (map trim (split_comma s')))"
    for s' rems'
    by (simp add: removeFilter_def remove_loop_eq)
  have "addFilter ''jazz, mp3'' [''rock''] = ''jazz,mp3,rock''"
    by (simp add: a trim_jazz trim_mp3 trim_rock)
  moreover have "removeFilter ''jazz,mp3,rock'' [''mp3''] = ''jazz,rock''"
    by (simp add: r trim_jazz trim_mp3 trim_rock)
  ultimately show ?thesis using a r by blast
qed

subsection \<open>Calls: sequencing, frame and invariant\<close>

lemma bnd_ret [simp]: "bnd (ret x) f = f x"
  by (simp add: bnd_def ret_def)

lemma bnd_lift_Inr [simp]: "bnd (lift (Inr x)) f = f x"
  by (simp add: bnd_def lift_def)

lemma bnd_lift_Inl [simp]: "bnd (lift (Inl e)) f = throw e"
  by (simp add: bnd_def lift_def throw_def)

lemma bnd_throw [simp]: "bnd (throw e) f = throw e"
  by (simp add: bnd_def throw_def)

lemma bnd_getApi: "bnd getApi f b = f (api b) b"
  by (simp add: bnd_def getApi_def)

lemma bind_err_simps [simp]: "bind_err (Inl e) f = Inl e" "bind_err (Inr x) f = f x"
  by (simp_all add: bind_err_def)

lemma only_links_bnd:
  assumes "only_links m" and "\<And>x. only_links (f x)"
  shows "only_links (bnd m f)"
proof (unfold only_links_def, rule allI)
  fix b
  from assms(1) obtain l where l: "snd (m b) = b\<lparr>links := l\<rparr>"
    unfolding only_links_def by blast
  show "\<exists>l'. snd (bnd m f b) = b\<lparr>links := l'\<rparr>"
  proof (cases "fst (m b)")
    case (Inl e)
    then have "bnd m f b = (Inl e, b\<lparr>links := l\<rparr>)"
      using l by (cases "m b") (simp add: bnd_def)
    then show ?thesis by auto
  next
    case (Inr x)
    then have eq: "bnd m f b = f x (b\<lparr>links := l\<rparr>)"
      using l by (cases "m b") (simp add: bnd_def)
    from assms(2) [of x] obtain l' where "snd (f x (b\<lparr>links := l\<rparr>)) = b\<lparr>links := l, links := l'\<rparr>"
      unfolding only_links_def by blast
    with eq show ?thesis by auto
  qed
qed

lemma self_links: "\<exists>l. b = b\<lparr>links := l\<rparr>"
  by (rule exI [of _ "links b"]) simp

lemma only_links_basic:
  "only_links (ret x)" "only_links (throw e)" "only_links (lift r)" "only_links getApi"
  "only_links get_links"
  unfolding only_links_def ret_def throw_def lift_def getApi_def get_links_def
  by (simp_all add: self_links)

lemma only_links_push: "only_links (push key v)"
  unfolding only_links_def push_def
  by (auto split: option.splits simp: self_links)

lemma only_links_push_all: "only_links (push_all key xs)"
  by (induction xs) (auto intro!: only_links_bnd only_links_basic only_links_push)

lemma only_links_add_each: "only_links (add_each us)"
  by (induction us) (auto intro!: only_links_bnd only_links_basic only_links_push)

lemma only_links_add: "only_links (add url)"
  unfolding add_def
  by (auto intro!: only_links_bnd only_links_basic only_links_push only_links_add_each)

lemma preserves_bnd:
  assumes "preserves P m" and "\<And>x. preserves P (f x)"
  shows "preserves P (bnd m f)"
proof (unfold preserves_def, intro allI impI)
  fix b assume "P b"
  with assms(1) have p: "P (snd (m b))" by (simp add: preserves_def)
  show "P (snd (bnd m f b))"
  proof (cases "m b")
    case (Pair r b')
    with p have "P b'" by simp
    with assms(2) show ?thesis
      using Pair by (cases r) (auto simp: bnd_def preserves_def)
  qed
qed

lemma preserves_basic:
  "preserves P (ret x)" "preserves P (throw e)" "preserves P (lift r)" "preserves P getApi"
  "preserves P get_links"
  by (simp_all add: preserves_def ret_def throw_def lift_def getApi_def get_links_def)

lemma map_fst_set_own: "map_of l k = Some xs \<Longrightarrow> map fst (set_own k v l) = map fst l"
  by (induction l) (auto split: if_splits)

lemma preserves_push: "preserves bucket_inv (push key v)"
  by (auto simp: preserves_def push_def bucket_inv_def links_ok_def aggregates_def map_fst_set_own
      split: option.splits)

lemma preserves_push_all: "preserves bucket_inv (push_all key xs)"
  by (induction xs) (auto intro!: preserves_bnd preserves_basic preserves_push)

lemma preserves_add_each: "preserves bucket_inv (add_each us)"
  by (induction us) (auto intro!: preserves_bnd preserves_basic preserves_push)

lemma preserves_add: "preserves bucket_inv (add url)"
  unfolding add_def
  by (auto intro!: preserves_bnd preserves_basic preserves_push preserves_add_each)


lemma bnd_ret_unit: "bnd m (\<lambda>_. ret ()) = (m :: unit call)"
proof
  fix b show "bnd m (\<lambda>_. ret ()) b = m b"
    by (cases "m b") (auto simp: bnd_def ret_def split: sum.splits)
qed

lemma info_tail:
  assumes "info0 = JUndefined \<or> info0 = info_literal d w p r"
  shows "bnd (lift (get_prop (js_or info0 (JArr [])) ''length'')) (\<lambda>n.
         bnd (lift (js_lt (JNum 0) n)) (\<lambda>positive.
         if positive then update_info (js_or info0 (JArr [])) else ret ())) = ret ()"
  using assms by (auto simp: js_or_def js_lt_def info_literal_def)

lemma add_internal_plain:
  assumes "info0 = JUndefined \<or> info0 = info_literal d w p r"
  shows "add_internal s t m e info0 =
     (if \<not> (isArray (js_or s (JArr [])) \<and> isArray (js_or t (JArr []))
            \<and> isArray (js_or m (JArr [])) \<and> isArray (js_or e (JArr [])))
      then throw (Thrown ''Add method takes only arrays as arguments'')
      else bnd (push_all ''singleurl'' (elems (js_or s (JArr [])))) (\<lambda>_.
           bnd (push_all ''torrenturl'' (elems (js_or t (JArr [])))) (\<lambda>_.
           bnd (push_all ''multiparturl'' (elems (js_or m (JArr [])))) (\<lambda>_.
           push_all ''error'' (elems (js_or e (JArr [])))))))"
  unfolding add_internal_def Let_def info_tail [OF assms] bnd_ret_unit by (rule refl)

lemma preserves_add_internal:
  assumes "info0 = JUndefined \<or> info0 = info_literal d w p r"
  shows "preserves bucket_inv (add_internal s t m e info0)"
  unfolding add_internal_plain [OF assms]
  by (auto intro!: preserves_bnd preserves_basic preserves_push_all)

lemma bucket_inv_new: "bucket_inv (new_bucket a)"
  by (simp add: bucket_inv_def new_bucket_def links_ok_def empty_links_def aggregates_def)

lemma UrlBucket_inv: "bucket_inv (snd (UrlBucket a s t m))"
  unfolding UrlBucket_def
  using preserves_add_internal [of JUndefined, unfolded preserves_def] bucket_inv_new
  by blast

lemma preserves_reset: "preserves bucket_inv (\<lambda>b. (Inr (), b\<lparr>links := empty_links\<rparr>))"
  by (simp add: preserves_def bucket_inv_def links_ok_def empty_links_def aggregates_def)

lemma preserves_add_internal_literal:
  "preserves bucket_inv (add_internal s t m e (info_literal d w p r))"
  by (rule preserves_add_internal [of _ d w p r]) simp

lemma preserves_callback: "preserves bucket_inv (analyze_callback results)"
  unfolding analyze_callback_def
  by (intro preserves_bnd preserves_basic preserves_reset preserves_add_internal_literal)

lemma snd_fetch: "snd (fetch b) = b"
  by (simp add: fetch_def)

lemma snd_analyze: "snd (analyze ls b) = b"
  by (simp add: analyze_def Let_def)

lemma snd_forget: "snd (forget m b) = snd (m b)"
  by (cases "m b") (auto simp: forget_def split: sum.splits)

lemma step_inv: "bucket_inv b \<Longrightarrow> bucket_inv (snd (step x b))"
  using preserves_add preserves_callback
  by (cases x) (simp_all add: snd_forget snd_fetch snd_analyze preserves_def)

lemma run_inv: "bucket_inv b \<Longrightarrow> run ops b = Some b' \<Longrightarrow> bucket_inv b'"
  by (induction ops arbitrary: b) (auto split: if_splits dest: step_inv)

lemma history_inv:
  "UrlBucket a s t m = (Inr (), b0) \<Longrightarrow> run ops b0 = Some b \<Longrightarrow> bucket_inv b"
  using UrlBucket_inv [of a s t m] run_inv by auto

lemma links_okE:
  assumes "links_ok l"
  obtains m t s e where
    "l = [(''multiparturl'', m), (''torrenturl'', t), (''singleurl'', s), (''error'', e)]"
  using assms unfolding links_ok_def by (auto simp: map_eq_Cons_conv)

lemma ret_apply: "ret x b = (Inr x, b)"
  by (simp add: ret_def)

lemma throw_apply: "throw e b = (Inl e, b)"
  by (simp add: throw_def)

lemma map_of_none_ok:
  "links_ok l \<Longrightarrow> k \<notin> set [''multiparturl'', ''torrenturl'', ''singleurl'', ''error''] \<Longrightarrow>
   map_of l k = None"
  unfolding links_ok_def by (metis map_of_eq_None_iff set_map)

lemma fresh_eq: "fresh = new_bucket example_api"
  by (simp add: fresh_def createBucket_def UrlBucket_def add_internal_plain js_or_def ret_apply)

lemma create_fresh: "UrlBucket example_api JUndefined JUndefined JUndefined = (Inr (), fresh)"
  by (simp add: fresh_eq UrlBucket_def add_internal_plain js_or_def ret_apply)

subsection \<open>The request of \<^verbatim>\<open>analyze\<close>\<close>

lemma candidate_loop_strings: "candidate_loop (map JStr cs) go = Inr (go @ map JStr cs)"
  by (induction cs arbitrary: go) simp_all

lemma staged_loop_undefined: "staged_loop JUndefined arr i go = Inr go"
  by (cases arr) (simp_all add: js_lt_def)

lemma staged_keys_undefined: "staged_keys JUndefined l go = Inr go"
  by (induction l arbitrary: go) (auto simp: staged_loop_undefined)

text \<open>
  C1. The claim is that the request of \<^verbatim>\<open>analyze\<close> carries the URLs staged in the
  partitions \<^verbatim>\<open>singleurl\<close>, \<^verbatim>\<open>torrenturl\<close> and \<^verbatim>\<open>multiparturl\<close> together with
  the candidates. What the code does: in every state a bucket reaches, a call of
  \<^verbatim>\<open>analyze\<close> with an array of strings ends with the request
  \<^verbatim>\<open>/urls\<close>, \<^verbatim>\<open>analyze\<close> whose \<^verbatim>\<open>links\<close> are these strings and nothing else.
  The loop under the comment "Add also the links already included in this bucket" is
  bounded by \<^verbatim>\<open>_links.length\<close>, a property the object \<^verbatim>\<open>_links\<close> does not have,
  so its body never runs and no staged URL is sent (no entry of the error partition
  either).
\<close>

theorem analyze_sends_candidates_only:
  assumes "UrlBucket a s t m = (Inr (), b0)" and "run ops b0 = Some b"
  shows "analyze (JArr (map JStr cs)) b =
    (Inr \<lparr>req_path = ''/urls'', req_method = ''analyze'',
          req_params = [(''links'', JArr (map JStr cs))]\<rparr>, b)"
proof -
  have "links_ok (links b)"
    using history_inv [OF assms] by (simp add: bucket_inv_def)
  then have "links_get (links b) ''length'' = JUndefined"
    by (simp add: links_get_def map_of_none_ok)
  then show ?thesis
    by (simp add: analyze_def js_or_def candidate_loop_strings staged_keys_undefined)
qed

text \<open>
  At the bucket that holds \<^verbatim>\<open>http://a\<close> in its single partition,
  \<^verbatim>\<open>analyze(callback, ["http://b"])\<close> sends \<^verbatim>\<open>http://b\<close> alone.
\<close>

theorem analyze_sends_candidates_only_witness:
  "UrlBucket example_api JUndefined JUndefined JUndefined = (Inr (), fresh)
   \<and> run [Add (JStr ''http://a'')] fresh = Some staged
   \<and> getSingleUrls staged = JArr [locator example_api ''http://a'']
   \<and> analyze (JArr [JStr ''http://b'']) staged =
       (Inr \<lparr>req_path = ''/urls'', req_method = ''analyze'',
             req_params = [(''links'', JArr [JStr ''http://b''])]\<rparr>, staged)"
proof -
  have h: "run [Add (JStr ''http://a'')] fresh = Some staged"
    by code_simp
  have g: "getSingleUrls staged = JArr [locator example_api ''http://a'']"
    by code_simp
  show ?thesis
    using analyze_sends_candidates_only [OF create_fresh h, of "[''http://b'']"] h g create_fresh
    by simp
qed

subsection \<open>The figures of the report\<close>

text \<open>
  C2. The claim is that after a successful analysis \<^verbatim>\<open>getReport\<close> gives the sums of
  the sizes and of the billed bandwidths of the returned records, and the two quota
  figures of the response. What the code does: in every state a bucket reaches, the
  four figures of the report are still \<^verbatim>\<open>null\<close>. The callback computes the sums
  and passes them to \<^verbatim>\<open>_add\<close> in an object literal, and \<^verbatim>\<open>_add\<close> stores them
  only \<^verbatim>\<open>if (info.length > 0)\<close>; the literal has no \<^verbatim>\<open>length\<close>, so the test is
  \<^verbatim>\<open>undefined > 0\<close> and fails.
\<close>

theorem report_figures_stay_null:
  assumes "UrlBucket a s t m = (Inr (), b0)" and "run ops b0 = Some b"
  shows "field (getReport b) ''Required Space'' = JNull
    \<and> field (getReport b) ''Bandwidth to be deducted from quota'' = JNull
    \<and> field (getReport b) ''Current Available Disk Space'' = JNull
    \<and> field (getReport b) ''Current Available Bandwidth'' = JNull"
  using history_inv [OF assms]
  by (simp add: bucket_inv_def aggregates_def getReport_def field_def)

text \<open>
  On the example response the callback returns, its local sums are 16 and 11, and the
  report of the bucket shows none of them, nor the quota figures 100 and 200.
\<close>

theorem report_figures_stay_null_witness:
  "UrlBucket example_api JUndefined JUndefined JUndefined = (Inr (), fresh)
   \<and> run [Response example_results] fresh = Some analyzed
   \<and> fst (analyze_callback example_results fresh) = Inr ()
   \<and> (case analyze_locals example_api example_results of
         Inl e \<Rightarrow> False
       | Inr loc \<Rightarrow> sum_req_space loc = JNum 16 \<and> sum_paid_bw loc = JNum 11)
   \<and> field (getReport analyzed) ''Required Space'' = JNull
   \<and> field (getReport analyzed) ''Bandwidth to be deducted from quota'' = JNull
   \<and> field (getReport analyzed) ''Current Available Disk Space'' = JNull
   \<and> field (getReport analyzed) ''Current Available Bandwidth'' = JNull"
proof -
  have h: "run [Response example_results] fresh = Some analyzed"
    by code_simp
  have ok: "fst (analyze_callback example_results fresh) = Inr ()"
    by code_simp
  have sums: "(case analyze_locals example_api example_results of
         Inl e \<Rightarrow> False
       | Inr loc \<Rightarrow> sum_req_space loc = JNum 16 \<and> sum_paid_bw loc = JNum 11)"
    by code_simp
  show ?thesis
    using report_figures_stay_null [OF create_fresh h] h ok sums create_fresh by simp
qed

subsection \<open>\<^verbatim>\<open>getErrorUrls\<close>\<close>

text \<open>
  C9. In every state a bucket reaches, \<^verbatim>\<open>getErrorUrls()\<close> returns
  \<^verbatim>\<open>undefined\<close>: it reads the key \<^verbatim>\<open>errorurl\<close>, which \<^verbatim>\<open>_links\<close> does not
  have, while the error partition is the array under the key \<^verbatim>\<open>error\<close>, the one
  that the \<^verbatim>\<open>Urls\<close> of \<^verbatim>\<open>getReport\<close> show and that \<^verbatim>\<open>fetch\<close> skips.
\<close>

theorem getErrorUrls_undefined:
  assumes "UrlBucket a s t m = (Inr (), b0)" and "run ops b0 = Some b"
  shows "getErrorUrls b = JUndefined
    \<and> map_of (links b) ''errorurl'' = None
    \<and> (\<exists>es. map_of (links b) ''error'' = Some es
           \<and> field (field (getReport b) ''Urls'') ''error'' = JArr es)"
proof -
  have ok: "links_ok (links b)"
    using history_inv [OF assms] by (simp add: bucket_inv_def)
  then have none: "map_of (links b) ''errorurl'' = None"
    by (simp add: map_of_none_ok)
  from ok obtain m' t' s' e' where
    "links b = [(''multiparturl'', m'), (''torrenturl'', t'), (''singleurl'', s'), (''error'', e')]"
    by (rule links_okE)
  then have "map_of (links b) ''error'' = Some e'
      \<and> field (field (getReport b) ''Urls'') ''error'' = JArr e'"
    by (simp add: getReport_def field_def)
  with none show ?thesis
    by (auto simp: getErrorUrls_def links_get_def)
qed

text \<open>After the example response the error partition holds one entry, and the accessor
  still answers \<^verbatim>\<open>undefined\<close>.\<close>

theorem getErrorUrls_undefined_witness:
  "UrlBucket example_api JUndefined JUndefined JUndefined = (Inr (), fresh)
   \<and> run [Response example_results] fresh = Some analyzed
   \<and> links_get (links analyzed) ''error'' =
       JArr [error_entry (JObj [(''url'', JStr ''e1''), (''name'', JStr ''n''),
                                (''error'', JStr ''bad link'')])]
   \<and> getErrorUrls analyzed = JUndefined"
proof -
  have h: "run [Response example_results] fresh = Some analyzed"
    by code_simp
  have e: "links_get (links analyzed) ''error'' =
       JArr [error_entry (JObj [(''url'', JStr ''e1''), (''name'', JStr ''n''),
                                (''error'', JStr ''bad link'')])]"
    by code_simp
  show ?thesis
    using getErrorUrls_undefined [OF create_fresh h] h e create_fresh by simp
qed

subsection \<open>The figures are not touched by \<^verbatim>\<open>add\<close> and \<^verbatim>\<open>fetch\<close>\<close>

lemma only_links_aggregates: "only_links m \<Longrightarrow> aggregates (snd (m b)) = aggregates b"
proof -
  assume "only_links m"
  then obtain l where "snd (m b) = b\<lparr>links := l\<rparr>"
    unfolding only_links_def by blast
  then show ?thesis by (simp add: aggregates_def)
qed

text \<open>
  C8. From every state of a bucket, a call of \<^verbatim>\<open>add\<close> (whatever its argument,
  before or after an analysis, returning or throwing) and a call of \<^verbatim>\<open>fetch\<close>
  leave the four figures (required space, paid bandwidth, last analysed disk and
  bandwidth available) as they were. The only code that assigns them is \<^verbatim>\<open>_add\<close>,
  which after the construction runs only in the callback of \<^verbatim>\<open>analyze\<close>.
\<close>

theorem aggregates_frame:
  "aggregates (snd (add url b)) = aggregates b
   \<and> aggregates (snd (fetch b)) = aggregates b"
  by (simp add: only_links_aggregates only_links_add snd_fetch)

subsection \<open>Arguments that are refused\<close>







subsection \<open>The partitions, written out\<close>

lemma push_explicit:
  assumes "links b = [(''multiparturl'', m), (''torrenturl'', t), (''singleurl'', s), (''error'', e)]"
  shows "push ''singleurl'' v b = (Inr (), b\<lparr>links :=
           [(''multiparturl'', m), (''torrenturl'', t), (''singleurl'', s @ [v]), (''error'', e)]\<rparr>)"
    and "push ''torrenturl'' v b = (Inr (), b\<lparr>links :=
           [(''multiparturl'', m), (''torrenturl'', t @ [v]), (''singleurl'', s), (''error'', e)]\<rparr>)"
    and "push ''multiparturl'' v b = (Inr (), b\<lparr>links :=
           [(''multiparturl'', m @ [v]), (''torrenturl'', t), (''singleurl'', s), (''error'', e)]\<rparr>)"
    and "push ''error'' v b = (Inr (), b\<lparr>links :=
           [(''multiparturl'', m), (''torrenturl'', t), (''singleurl'', s), (''error'', e @ [v])]\<rparr>)"
  using assms by (simp_all add: push_def)

lemma push_all_single:
  "links b = [(''multiparturl'', m), (''torrenturl'', t), (''singleurl'', s), (''error'', e)] \<Longrightarrow>
   push_all ''singleurl'' xs b = (Inr (), b\<lparr>links :=
     [(''multiparturl'', m), (''torrenturl'', t), (''singleurl'', s @ xs), (''error'', e)]\<rparr>)"
proof (induction xs arbitrary: b s)
  case Nil
  then show ?case by (simp add: ret_apply)
next
  case (Cons x xs)
  show ?case
    using Cons.IH [of "b\<lparr>links := [(''multiparturl'', m), (''torrenturl'', t),
        (''singleurl'', s @ [x]), (''error'', e)]\<rparr>" "s @ [x]"]
    by (simp add: bnd_def push_explicit(1) [OF Cons.prems])
qed

lemma push_all_torrent:
  "links b = [(''multiparturl'', m), (''torrenturl'', t), (''singleurl'', s), (''error'', e)] \<Longrightarrow>
   push_all ''torrenturl'' xs b = (Inr (), b\<lparr>links :=
     [(''multiparturl'', m), (''torrenturl'', t @ xs), (''singleurl'', s), (''error'', e)]\<rparr>)"
proof (induction xs arbitrary: b t)
  case Nil
  then show ?case by (simp add: ret_apply)
next
  case (Cons x xs)
  show ?case
    using Cons.IH [of "b\<lparr>links := [(''multiparturl'', m), (''torrenturl'', t @ [x]),
        (''singleurl'', s), (''error'', e)]\<rparr>" "t @ [x]"]
    by (simp add: bnd_def push_explicit(2) [OF Cons.prems])
qed

lemma push_all_multipart:
  "links b = [(''multiparturl'', m), (''torrenturl'', t), (''singleurl'', s), (''error'', e)] \<Longrightarrow>
   push_all ''multiparturl'' xs b = (Inr (), b\<lparr>links :=
     [(''multiparturl'', m @ xs), (''torrenturl'', t), (''singleurl'', s), (''error'', e)]\<rparr>)"
proof (induction xs arbitrary: b m)
  case Nil
  then show ?case by (simp add: ret_apply)
next
  case (Cons x xs)
  show ?case
    using Cons.IH [of "b\<lparr>links := [(''multiparturl'', m @ [x]), (''torrenturl'', t),
        (''singleurl'', s), (''error'', e)]\<rparr>" "m @ [x]"]
    by (simp add: bnd_def push_explicit(3) [OF Cons.prems])
qed

lemma push_all_error:
  "links b = [(''multiparturl'', m), (''torrenturl'', t), (''singleurl'', s), (''error'', e)] \<Longrightarrow>
   push_all ''error'' xs b = (Inr (), b\<lparr>links :=
     [(''multiparturl'', m), (''torrenturl'', t), (''singleurl'', s), (''error'', e @ xs)]\<rparr>)"
proof (induction xs arbitrary: b e)
  case Nil
  then show ?case by (simp add: ret_apply)
next
  case (Cons x xs)
  show ?case
    using Cons.IH [of "b\<lparr>links := [(''multiparturl'', m), (''torrenturl'', t),
        (''singleurl'', s), (''error'', e @ [x])]\<rparr>" "e @ [x]"]
    by (simp add: bnd_def push_explicit(4) [OF Cons.prems])
qed

lemma add_internal_reset:
  "add_internal (JArr s) (JArr t) (JArr m) (JArr e) (info_literal d w p r)
     (b\<lparr>links := empty_links\<rparr>) =
   (Inr (), b\<lparr>links :=
     [(''multiparturl'', m), (''torrenturl'', t), (''singleurl'', s), (''error'', e)]\<rparr>)"
proof -
  have i: "info_literal d w p r = JUndefined \<or> info_literal d w p r = info_literal d w p r"
    by simp
  show ?thesis
    unfolding add_internal_plain [OF i]
    by (simp add: js_or_def bnd_def empty_links_def push_all_single push_all_torrent
        push_all_multipart push_all_error)
qed

lemma bnd_lift_apply:
  "bnd (lift r) f b = (case r of Inl e \<Rightarrow> (Inl e, b) | Inr x \<Rightarrow> f x b)"
  by (simp add: bnd_def lift_def split: sum.splits)

lemma bnd_write_apply: "bnd (\<lambda>b. (Inr x, g b)) f b = f x (g b)"
  by (simp add: bnd_def)

lemma callback_result:
  "analyze_callback results b =
     (case analyze_locals (api b) results of
        Inl e \<Rightarrow> (Inl e, b)
      | Inr loc \<Rightarrow>
          (case get_prop results ''disk_avail'' of
             Inl e \<Rightarrow> (Inl e, b\<lparr>links := empty_links\<rparr>)
           | Inr disk \<Rightarrow>
               (case get_prop results ''bw_avail'' of
                  Inl e \<Rightarrow> (Inl e, b\<lparr>links := empty_links\<rparr>)
                | Inr bw \<Rightarrow>
                    (Inr (), b\<lparr>links :=
                       [(''multiparturl'', multipart_urls loc), (''torrenturl'', torrent_urls loc),
                        (''singleurl'', single_urls loc), (''error'', error_urls loc)]\<rparr>))))"
  by (simp add: analyze_callback_def bnd_getApi bnd_lift_apply bnd_write_apply
      add_internal_reset split: sum.splits)


subsection \<open>The entries of the error partition\<close>

lemma bind_err_Inr:
  "bind_err m f = Inr y \<longleftrightarrow> (\<exists>x. m = Inr x \<and> f x = Inr y)"
  by (cases m) simp_all

lemma Url_error_entry: "Url r JUndefined = Inr (error_entry r)"
  by (simp add: Url_def BaseApiObj_def BaseObj_def js_or_def error_entry_def)

lemma error_loop_result:
  "error_loop es loc = Inr (loc\<lparr>error_urls := error_urls loc @ map error_entry es\<rparr>)"
  by (induction es arbitrary: loc) (simp_all add: Url_error_entry)

lemma multipart_loop_errors:
  "multipart_loop a rs loc = Inr loc' \<Longrightarrow> error_urls loc' = error_urls loc"
  by (induction rs arbitrary: loc) (auto simp: bind_err_Inr)

lemma torrent_loop_errors:
  "torrent_loop a rs loc = Inr loc' \<Longrightarrow> error_urls loc' = error_urls loc"
  by (induction rs arbitrary: loc) (auto simp: bind_err_Inr)

lemma single_loop_errors:
  "single_loop a rs loc = Inr loc' \<Longrightarrow> error_urls loc' = error_urls loc"
  by (induction rs arbitrary: loc) (auto simp: bind_err_Inr)

lemma analyze_locals_errors:
  assumes "analyze_locals a results = Inr loc"
  shows "error_urls loc = map error_entry (visited (field (field results ''items'') ''error''))"
proof -
  from assms obtain items m ms loc1 t ts loc2 s ss loc3 e es where
    i: "get_prop results ''items'' = Inr items"
    and "multipart_loop a ms \<lparr>multipart_urls = [], single_urls = [], torrent_urls = [],
           error_urls = [], sum_paid_bw = JNum 0, sum_req_space = JNum 0\<rparr> = Inr loc1"
    and "torrent_loop a ts loc1 = Inr loc2"
    and "single_loop a ss loc2 = Inr loc3"
    and e: "get_prop items ''error'' = Inr e" and es: "loop_elems e = Inr es"
    and l: "error_loop es loc3 = Inr loc"
    unfolding analyze_locals_def bind_err_Inr by blast
  then have "error_urls loc3 = []"
    by (auto dest!: multipart_loop_errors torrent_loop_errors single_loop_errors)
  with l have "error_urls loc = map error_entry es"
    by (auto simp: error_loop_result)
  with i e es show ?thesis
    by (simp add: field_def visited_def)
qed

text \<open>
  C10. When the callback of \<^verbatim>\<open>analyze\<close> returns on a response, the error
  partition holds one entry for each record of \<^verbatim>\<open>results.items.error\<close>, in
  order, and the entry for a record \<open>r\<close> is the object with the two properties
  \<^verbatim>\<open>getApi\<close> and \<^verbatim>\<open>toString\<close> only: it has no \<^verbatim>\<open>url\<close>, \<^verbatim>\<open>name\<close> or
  \<^verbatim>\<open>error\<close> of its own, and \<open>r\<close> is what its \<^verbatim>\<open>getApi\<close> returns, since
  \<^verbatim>\<open>Url(r)\<close> takes \<open>r\<close> as \<^verbatim>\<open>api\<close> and gets no \<^verbatim>\<open>args\<close>.
\<close>

theorem error_entries_are_bare:
  assumes "fst (analyze_callback results b) = Inr ()"
  shows "links_get (links (snd (analyze_callback results b))) ''error'' =
           JArr (map error_entry (visited (field (field results ''items'') ''error'')))
    \<and> get_prop (error_entry r) ''url'' = Inr JUndefined
    \<and> get_prop (error_entry r) ''name'' = Inr JUndefined
    \<and> get_prop (error_entry r) ''error'' = Inr JUndefined
    \<and> error_entry r = JObj [(''getApi'', JGetApi r), (''toString'', JUrlToString)]"
proof -
  from assms obtain loc where loc: "analyze_locals (api b) results = Inr loc"
    and "links (snd (analyze_callback results b)) =
              [(''multiparturl'', multipart_urls loc), (''torrenturl'', torrent_urls loc),
               (''singleurl'', single_urls loc), (''error'', error_urls loc)]"
    unfolding callback_result [of results b] by (auto split: sum.splits)
  then show ?thesis
    using analyze_locals_errors [OF loc] by (simp add: links_get_def error_entry_def)
qed

text \<open>The rejected link of the example response.\<close>

theorem error_entries_are_bare_witness:
  "fst (analyze_callback example_results fresh) = Inr ()
   \<and> visited (field (field example_results ''items'') ''error'') =
       [JObj [(''url'', JStr ''e1''), (''name'', JStr ''n''), (''error'', JStr ''bad link'')]]
   \<and> links_get (links analyzed) ''error'' =
       JArr [JObj [(''getApi'', JGetApi (JObj [(''url'', JStr ''e1''), (''name'', JStr ''n''),
                      (''error'', JStr ''bad link'')])),
                   (''toString'', JUrlToString)]]"
proof -
  have ok: "fst (analyze_callback example_results fresh) = Inr ()"
    by code_simp
  have v: "visited (field (field example_results ''items'') ''error'') =
       [JObj [(''url'', JStr ''e1''), (''name'', JStr ''n''), (''error'', JStr ''bad link'')]]"
    by code_simp
  show ?thesis
    using error_entries_are_bare [OF ok] ok v by (simp add: analyzed_def error_entry_def)
qed


subsection \<open>The callback replaces the partitions\<close>

lemma parts_loop_result:
  "parts_loop a ps acc = Inr r \<Longrightarrow> r = acc @ map (part_entry a) ps"
proof (induction ps arbitrary: acc)
  case Nil
  then show ?case by simp
next
  case (Cons p ps)
  from Cons.prems obtain x where x: "Multipart a p = Inr x"
    and rest: "parts_loop a ps (acc @ [x]) = Inr r"
    by (auto simp: bind_err_Inr)
  from Cons.IH [OF rest] x show ?case
    by (simp add: part_entry_def made_def)
qed

lemma multipart_loop_result:
  "multipart_loop a rs loc = Inr loc' \<Longrightarrow>
   multipart_urls loc' = multipart_urls loc @ concat (map (multipart_entries a) rs)
   \<and> torrent_urls loc' = torrent_urls loc \<and> single_urls loc' = single_urls loc"
proof (induction rs arbitrary: loc)
  case Nil
  then show ?case by simp
next
  case (Cons r rs)
  from Cons.prems obtain paid req parts ps mu where
    parts: "get_prop r ''parts'' = Inr parts" and ps: "loop_elems parts = Inr ps"
    and mu: "parts_loop a ps (multipart_urls loc) = Inr mu"
    and rest: "multipart_loop a rs
         (loc\<lparr>sum_paid_bw := paid, sum_req_space := req, multipart_urls := mu\<rparr>) = Inr loc'"
    by (auto simp: bind_err_Inr)
  have "mu = multipart_urls loc @ multipart_entries a r"
    using parts_loop_result [OF mu] parts ps
    by (simp add: multipart_entries_def field_def visited_def)
  with Cons.IH [OF rest] show ?case by simp
qed

lemma torrent_loop_result:
  "torrent_loop a rs loc = Inr loc' \<Longrightarrow>
   torrent_urls loc' = torrent_urls loc @ map (torrent_entry a) rs
   \<and> multipart_urls loc' = multipart_urls loc \<and> single_urls loc' = single_urls loc"
proof (induction rs arbitrary: loc)
  case Nil
  then show ?case by simp
next
  case (Cons r rs)
  from Cons.prems obtain t paid req where t: "Torrent a r = Inr t"
    and rest: "torrent_loop a rs
         (loc\<lparr>torrent_urls := torrent_urls loc @ [t], sum_paid_bw := paid,
              sum_req_space := req\<rparr>) = Inr loc'"
    by (auto simp: bind_err_Inr)
  from Cons.IH [OF rest] t show ?case
    by (simp add: torrent_entry_def made_def)
qed

lemma single_loop_result:
  "single_loop a rs loc = Inr loc' \<Longrightarrow>
   single_urls loc' = single_urls loc @ map (url_entry a) rs
   \<and> multipart_urls loc' = multipart_urls loc \<and> torrent_urls loc' = torrent_urls loc"
proof (induction rs arbitrary: loc)
  case Nil
  then show ?case by simp
next
  case (Cons r rs)
  from Cons.prems obtain u paid req where u: "Url a r = Inr u"
    and rest: "single_loop a rs
         (loc\<lparr>single_urls := single_urls loc @ [u], sum_paid_bw := paid,
              sum_req_space := req\<rparr>) = Inr loc'"
    by (auto simp: bind_err_Inr)
  from Cons.IH [OF rest] u show ?case
    by (simp add: url_entry_def made_def)
qed

lemma analyze_locals_lists:
  assumes "analyze_locals a results = Inr loc"
  shows "multipart_urls loc =
           concat (map (multipart_entries a)
             (visited (field (field results ''items'') ''multiparturl'')))"
    and "torrent_urls loc =
           map (torrent_entry a) (visited (field (field results ''items'') ''torrent''))"
    and "single_urls loc =
           map (url_entry a) (visited (field (field results ''items'') ''singleurl''))"
proof -
  from assms obtain items m ms loc1 t ts loc2 s ss loc3 e es where
    i: "get_prop results ''items'' = Inr items"
    and m: "get_prop items ''multiparturl'' = Inr m" and ms: "loop_elems m = Inr ms"
    and l1: "multipart_loop a ms \<lparr>multipart_urls = [], single_urls = [], torrent_urls = [],
           error_urls = [], sum_paid_bw = JNum 0, sum_req_space = JNum 0\<rparr> = Inr loc1"
    and t: "get_prop items ''torrent'' = Inr t" and ts: "loop_elems t = Inr ts"
    and l2: "torrent_loop a ts loc1 = Inr loc2"
    and s: "get_prop items ''singleurl'' = Inr s" and ss: "loop_elems s = Inr ss"
    and l3: "single_loop a ss loc2 = Inr loc3"
    and l: "error_loop es loc3 = Inr loc"
    unfolding analyze_locals_def bind_err_Inr by blast
  from l have same: "multipart_urls loc = multipart_urls loc3"
    "torrent_urls loc = torrent_urls loc3" "single_urls loc = single_urls loc3"
    by (auto simp: error_loop_result)
  note r1 = multipart_loop_result [OF l1] and r2 = torrent_loop_result [OF l2]
    and r3 = single_loop_result [OF l3]
  show "multipart_urls loc =
           concat (map (multipart_entries a)
             (visited (field (field results ''items'') ''multiparturl'')))"
    using same r1 r2 r3 i m ms by (simp add: field_def visited_def)
  show "torrent_urls loc =
           map (torrent_entry a) (visited (field (field results ''items'') ''torrent''))"
    using same r1 r2 r3 i t ts by (simp add: field_def visited_def)
  show "single_urls loc =
           map (url_entry a) (visited (field (field results ''items'') ''singleurl''))"
    using same r1 r2 r3 i s ss by (simp add: field_def visited_def)
qed

text \<open>
  C3. When the callback of \<^verbatim>\<open>analyze\<close> returns on a response, the four partitions
  it leaves are those it would leave in a bucket just created with the same
  \<^verbatim>\<open>api\<close>: nothing of the partitions held before remains. They are built from the
  response alone: the multipart partition holds \<^verbatim>\<open>Multipart(api, p)\<close> for every
  part \<open>p\<close> of every record of \<^verbatim>\<open>results.items.multiparturl\<close>, the torrent
  partition \<^verbatim>\<open>Torrent(api, r)\<close> for every record of \<^verbatim>\<open>results.items.torrent\<close>,
  the single partition \<^verbatim>\<open>Url(api, r)\<close> for every record of
  \<^verbatim>\<open>results.items.singleurl\<close>, and the error partition \<^verbatim>\<open>Url(r)\<close> for every
  record of \<^verbatim>\<open>results.items.error\<close>, each in the order of the response. These
  are the four local lists of the callback.
\<close>

theorem analyze_replaces_partitions:
  assumes "fst (analyze_callback results b) = Inr ()"
  shows "links (snd (analyze_callback results b)) =
           links (snd (analyze_callback results (new_bucket (api b))))
    \<and> links (snd (analyze_callback results b)) =
        [(''multiparturl'', concat (map (multipart_entries (api b))
            (visited (field (field results ''items'') ''multiparturl'')))),
         (''torrenturl'', map (torrent_entry (api b))
            (visited (field (field results ''items'') ''torrent''))),
         (''singleurl'', map (url_entry (api b))
            (visited (field (field results ''items'') ''singleurl''))),
         (''error'', map error_entry
            (visited (field (field results ''items'') ''error'')))]
    \<and> (\<exists>loc. analyze_locals (api b) results = Inr loc
          \<and> links (snd (analyze_callback results b)) =
              [(''multiparturl'', multipart_urls loc), (''torrenturl'', torrent_urls loc),
               (''singleurl'', single_urls loc), (''error'', error_urls loc)])"
proof -
  have a: "api (new_bucket (api b)) = api b"
    by (simp add: new_bucket_def)
  from assms obtain loc where loc: "analyze_locals (api b) results = Inr loc"
    and l: "links (snd (analyze_callback results b)) =
              [(''multiparturl'', multipart_urls loc), (''torrenturl'', torrent_urls loc),
               (''singleurl'', single_urls loc), (''error'', error_urls loc)]"
    unfolding callback_result [of results b] by (auto split: sum.splits)
  have same: "links (snd (analyze_callback results b)) =
           links (snd (analyze_callback results (new_bucket (api b))))"
    using assms
    unfolding callback_result [of results b] callback_result [of results "new_bucket (api b)"] a
    by (auto split: sum.splits)
  from same l loc show ?thesis
    using analyze_locals_lists [OF loc] analyze_locals_errors [OF loc] by simp
qed


text \<open>
  \<^verbatim>\<open>analyze(["a.torrent"])\<close>, its response, \<^verbatim>\<open>analyze(["b.torrent"])\<close>, its
  response: the bucket holds the record of \<^verbatim>\<open>b.torrent\<close> and nothing of
  \<^verbatim>\<open>a.torrent\<close>. And the example response, arriving at the bucket that holds
  \<^verbatim>\<open>a.torrent\<close>, leaves its two parts, its torrent, its single link and its
  rejected link, and nothing else.
\<close>

theorem analyze_replaces_partitions_witness:
  "run [Analyze (JArr [JStr ''a.torrent'']), Response (torrent_results ''a.torrent''),
        Analyze (JArr [JStr ''b.torrent'']), Response (torrent_results ''b.torrent'')] fresh
     = Some after_b
   \<and> getTorrentUrls after_a =
       JArr [JObj [(''url'', JStr ''a.torrent''), (''paid_bw'', JNum 0), (''size'', JNum 4),
                   (''getApi'', JGetApi example_api)]]
   \<and> fst (analyze_callback (torrent_results ''b.torrent'') after_a) = Inr ()
   \<and> links after_b =
       [(''multiparturl'', []),
        (''torrenturl'', [JObj [(''url'', JStr ''b.torrent''), (''paid_bw'', JNum 0),
                                (''size'', JNum 4), (''getApi'', JGetApi example_api)]]),
        (''singleurl'', []), (''error'', [])]
   \<and> fst (analyze_callback example_results after_a) = Inr ()
   \<and> links (snd (analyze_callback example_results after_a)) =
       [(''multiparturl'',
           [JObj [(''url'', JStr ''p1''), (''getApi'', JGetApi example_api)],
            JObj [(''url'', JStr ''p2''), (''getApi'', JGetApi example_api)]]),
        (''torrenturl'',
           [JObj [(''url'', JStr ''t1''), (''paid_bw'', JNum 1), (''size'', JNum 2),
                  (''getApi'', JGetApi example_api)]]),
        (''singleurl'',
           [JObj [(''url'', JStr ''s1''), (''paid_bw'', JNum 3), (''size'', JNum 5),
                  (''getApi'', JGetApi example_api), (''toString'', JUrlToString)]]),
        (''error'',
           [JObj [(''getApi'', JGetApi (JObj [(''url'', JStr ''e1''), (''name'', JStr ''n''),
                     (''error'', JStr ''bad link'')])),
                  (''toString'', JUrlToString)]])]"
proof -
  have h: "run [Analyze (JArr [JStr ''a.torrent'']), Response (torrent_results ''a.torrent''),
        Analyze (JArr [JStr ''b.torrent'']), Response (torrent_results ''b.torrent'')] fresh
     = Some after_b"
    by code_simp
  have g: "getTorrentUrls after_a =
       JArr [JObj [(''url'', JStr ''a.torrent''), (''paid_bw'', JNum 0), (''size'', JNum 4),
                   (''getApi'', JGetApi example_api)]]"
    by code_simp
  have ok: "fst (analyze_callback (torrent_results ''b.torrent'') after_a) = Inr ()"
    by code_simp
  have e: "links (snd (analyze_callback (torrent_results ''b.torrent'') (new_bucket (api after_a)))) =
       [(''multiparturl'', []),
        (''torrenturl'', [JObj [(''url'', JStr ''b.torrent''), (''paid_bw'', JNum 0),
                                (''size'', JNum 4), (''getApi'', JGetApi example_api)]]),
        (''singleurl'', []), (''error'', [])]"
    by code_simp
  have ok2: "fst (analyze_callback example_results after_a) = Inr ()"
    by code_simp
  have e2: "[(''multiparturl'', concat (map (multipart_entries (api after_a))
            (visited (field (field example_results ''items'') ''multiparturl'')))),
         (''torrenturl'', map (torrent_entry (api after_a))
            (visited (field (field example_results ''items'') ''torrent''))),
         (''singleurl'', map (url_entry (api after_a))
            (visited (field (field example_results ''items'') ''singleurl''))),
         (''error'', map error_entry
            (visited (field (field example_results ''items'') ''error'')))] =
       [(''multiparturl'',
           [JObj [(''url'', JStr ''p1''), (''getApi'', JGetApi example_api)],
            JObj [(''url'', JStr ''p2''), (''getApi'', JGetApi example_api)]]),
        (''torrenturl'',
           [JObj [(''url'', JStr ''t1''), (''paid_bw'', JNum 1), (''size'', JNum 2),
                  (''getApi'', JGetApi example_api)]]),
        (''singleurl'',
           [JObj [(''url'', JStr ''s1''), (''paid_bw'', JNum 3), (''size'', JNum 5),
                  (''getApi'', JGetApi example_api), (''toString'', JUrlToString)]]),
        (''error'',
           [JObj [(''getApi'', JGetApi (JObj [(''url'', JStr ''e1''), (''name'', JStr ''n''),
                     (''error'', JStr ''bad link'')])),
                  (''toString'', JUrlToString)]])]"
    by code_simp
  have first: "links after_b =
       [(''multiparturl'', []),
        (''torrenturl'', [JObj [(''url'', JStr ''b.torrent''), (''paid_bw'', JNum 0),
                                (''size'', JNum 4), (''getApi'', JGetApi example_api)]]),
        (''singleurl'', []), (''error'', [])]"
    using analyze_replaces_partitions [OF ok] e by (simp add: after_b_def)
  have second: "links (snd (analyze_callback example_results after_a)) =
         [(''multiparturl'', concat (map (multipart_entries (api after_a))
            (visited (field (field example_results ''items'') ''multiparturl'')))),
         (''torrenturl'', map (torrent_entry (api after_a))
            (visited (field (field example_results ''items'') ''torrent''))),
         (''singleurl'', map (url_entry (api after_a))
            (visited (field (field example_results ''items'') ''singleurl''))),
         (''error'', map error_entry
            (visited (field (field example_results ''items'') ''error'')))]"
    using analyze_replaces_partitions [OF ok2] by blast
  show ?thesis
    using h g ok ok2 first second [unfolded e2] by blast
qed

subsection \<open>The request of \<^verbatim>\<open>fetch\<close>\<close>

lemma collect_urls_result:
  "collect_urls xs go = Inr r \<Longrightarrow> r = go @ map url_of xs"
proof (induction xs arbitrary: go)
  case Nil
  then show ?case by simp
next
  case (Cons x xs)
  from Cons.prems obtain u where u: "get_prop x ''url'' = Inr u"
    and rest: "collect_urls xs (go @ [u]) = Inr r"
    by (auto simp: bind_err_Inr)
  from Cons.IH [OF rest] u show ?case
    by (simp add: url_of_def field_def)
qed

text \<open>
  C4, as amended. In every state a bucket reaches, a call of \<^verbatim>\<open>fetch\<close> that does
  not throw sends the request \<^verbatim>\<open>/transfers\<close>, \<^verbatim>\<open>add\<close> whose \<^verbatim>\<open>links\<close> are
  the \<^verbatim>\<open>url\<close> of every entry of the multipart partition, then of the torrent
  partition, then of the single partition, each in insertion order, and of no entry of
  the error partition: \<^verbatim>\<open>for (key in _links)\<close> visits the keys in the order of the
  object literal, \<^verbatim>\<open>multiparturl\<close>, \<^verbatim>\<open>torrenturl\<close>, \<^verbatim>\<open>singleurl\<close>.
\<close>

theorem fetch_sends_multipart_torrent_single:
  assumes "UrlBucket a s t m = (Inr (), b0)" and "run ops b0 = Some b"
    and "fst (fetch b) = Inr r"
  shows "r = \<lparr>req_path = ''/transfers'', req_method = ''add'',
              req_params = [(''links'', JArr (map url_of
                 (elems (getMultipartUrls b) @ elems (getTorrentUrls b)
                  @ elems (getSingleUrls b))))]\<rparr>"
proof -
  have "links_ok (links b)"
    using history_inv [OF assms(1,2)] by (simp add: bucket_inv_def)
  then obtain m' t' s' e' where l:
    "links b = [(''multiparturl'', m'), (''torrenturl'', t'), (''singleurl'', s'), (''error'', e')]"
    by (rule links_okE)
  from assms(3) obtain go where go: "fetch_keys (links b) [] = Inr go"
    and r: "r = \<lparr>req_path = ''/transfers'', req_method = ''add'',
                 req_params = [(''links'', JArr go)]\<rparr>"
    by (auto simp: fetch_def bind_err_Inr)
  from go obtain g1 g2 where "collect_urls m' [] = Inr g1" "collect_urls t' g1 = Inr g2"
    "collect_urls s' g2 = Inr go"
    unfolding l by (auto simp: bind_err_Inr)
  then have "go = map url_of (m' @ t' @ s')"
    by (auto dest!: collect_urls_result)
  with r l show ?thesis
    by (simp add: getMultipartUrls_def getTorrentUrls_def getSingleUrls_def links_get_def)
qed

text \<open>The example response followed by \<^verbatim>\<open>add("http://a")\<close>.\<close>

theorem fetch_sends_multipart_torrent_single_witness:
  "UrlBucket example_api JUndefined JUndefined JUndefined = (Inr (), fresh)
   \<and> run [Response example_results, Add (JStr ''http://a'')] fresh
       = Some (snd (add (JStr ''http://a'') analyzed))
   \<and> fst (fetch (snd (add (JStr ''http://a'') analyzed))) =
       Inr \<lparr>req_path = ''/transfers'', req_method = ''add'',
            req_params = [(''links'', JArr [JStr ''p1'', JStr ''p2'', JStr ''t1'', JStr ''s1'',
                                             JStr ''http://a''])]\<rparr>"
proof -
  have h: "run [Response example_results, Add (JStr ''http://a'')] fresh
       = Some (snd (add (JStr ''http://a'') analyzed))"
    by code_simp
  have f: "fst (fetch (snd (add (JStr ''http://a'') analyzed))) =
       Inr \<lparr>req_path = ''/transfers'', req_method = ''add'',
            req_params = [(''links'', JArr [JStr ''p1'', JStr ''p2'', JStr ''t1'', JStr ''s1'',
                                             JStr ''http://a''])]\<rparr>"
    by code_simp
  show ?thesis
    using fetch_sends_multipart_torrent_single [OF create_fresh h f] h f create_fresh by simp
qed

text \<open>
  C4, as stated, fails: after the example response the single partition holds
  \<^verbatim>\<open>s1\<close>, the torrent partition \<^verbatim>\<open>t1\<close> and the multipart partition
  \<^verbatim>\<open>p1\<close>, \<^verbatim>\<open>p2\<close>, and \<^verbatim>\<open>fetch\<close> sends \<^verbatim>\<open>p1, p2, t1, s1\<close>, not
  \<^verbatim>\<open>s1, t1, p1, p2\<close>.
\<close>

theorem fetch_order_counterexample:
  "map url_of (elems (getSingleUrls analyzed)) = [JStr ''s1'']
   \<and> map url_of (elems (getTorrentUrls analyzed)) = [JStr ''t1'']
   \<and> map url_of (elems (getMultipartUrls analyzed)) = [JStr ''p1'', JStr ''p2'']
   \<and> fst (fetch analyzed) =
       Inr \<lparr>req_path = ''/transfers'', req_method = ''add'',
            req_params = [(''links'', JArr [JStr ''p1'', JStr ''p2'', JStr ''t1'', JStr ''s1''])]\<rparr>
   \<and> fst (fetch analyzed) \<noteq>
       Inr \<lparr>req_path = ''/transfers'', req_method = ''add'',
            req_params = [(''links'', JArr [JStr ''s1'', JStr ''t1'', JStr ''p1'', JStr ''p2''])]\<rparr>"
  by code_simp

subsection \<open>What \<^verbatim>\<open>add\<close> appends\<close>

lemma Url_locator: "Url a (JObj [(''url'', JStr u)]) = Inr (locator a u)"
  by (simp add: Url_def BaseApiObj_def BaseObj_def js_or_def locator_def)

lemma strings_map: "list_all is_string xs \<Longrightarrow> xs = map JStr (map str_of xs)"
proof (induction xs)
  case Nil
  then show ?case by simp
next
  case (Cons x xs)
  then show ?case by (cases x) simp_all
qed

lemma add_each_strings:
  "links b = [(''multiparturl'', m), (''torrenturl'', t), (''singleurl'', s), (''error'', e)] \<Longrightarrow>
   add_each (map JStr us) b = (Inr (), b\<lparr>links :=
     [(''multiparturl'', m), (''torrenturl'', t),
      (''singleurl'', s @ map (locator (api b)) us), (''error'', e)]\<rparr>)"
proof (induction us arbitrary: b s)
  case Nil
  then show ?case by (simp add: ret_apply)
next
  case (Cons u us)
  show ?case
    using Cons.IH [of "b\<lparr>links := [(''multiparturl'', m), (''torrenturl'', t),
        (''singleurl'', s @ [locator (api b) u]), (''error'', e)]\<rparr>" "s @ [locator (api b) u]"]
    by (simp add: Url_locator bnd_def getApi_def lift_def push_explicit(1) [OF Cons.prems])
qed

lemma add_url_arg:
  assumes "links b = [(''multiparturl'', m), (''torrenturl'', t), (''singleurl'', s), (''error'', e)]"
    and "url_arg u"
  shows "forget (add u) b = (Inr (), b\<lparr>links :=
     [(''multiparturl'', m), (''torrenturl'', t),
      (''singleurl'', s @ map (locator (api b)) (raw_urls u)), (''error'', e)]\<rparr>)"
proof (cases u)
  case (JStr x)
  with assms show ?thesis
    by (simp add: add_def forget_def Url_locator bnd_def getApi_def lift_def push_explicit(1)
        get_links_def)
next
  case (JArr xs)
  with assms(2) have "list_all is_string xs"
    by simp
  then have "xs = map JStr (map str_of xs)"
    by (rule strings_map)
  then have "add_each xs b = (Inr (), b\<lparr>links :=
     [(''multiparturl'', m), (''torrenturl'', t),
      (''singleurl'', s @ map (locator (api b)) (map str_of xs)), (''error'', e)]\<rparr>)"
    using add_each_strings [OF assms(1), of "map str_of xs"] by simp
  with JArr show ?thesis
    by (simp add: add_def forget_def bnd_def get_links_def)
qed (use assms(2) in simp_all)

lemma adds_url_args:
  "links b = [(''multiparturl'', m), (''torrenturl'', t), (''singleurl'', s), (''error'', e)] \<Longrightarrow>
   list_all url_arg us \<Longrightarrow>
   adds us b = (Inr (), b\<lparr>links :=
     [(''multiparturl'', m), (''torrenturl'', t),
      (''singleurl'', s @ map (locator (api b)) (concat (map raw_urls us))), (''error'', e)]\<rparr>)"
proof (induction us arbitrary: b s)
  case Nil
  then show ?case by (simp add: ret_apply)
next
  case (Cons u us)
  from Cons.prems have u: "url_arg u" and us: "list_all url_arg us" by simp_all
  have step: "forget (add u) b = (Inr (), b\<lparr>links :=
     [(''multiparturl'', m), (''torrenturl'', t),
      (''singleurl'', s @ map (locator (api b)) (raw_urls u)), (''error'', e)]\<rparr>)"
    by (rule add_url_arg [OF Cons.prems(1) u])
  then obtain l where a: "add u b = (Inr l, b\<lparr>links :=
     [(''multiparturl'', m), (''torrenturl'', t),
      (''singleurl'', s @ map (locator (api b)) (raw_urls u)), (''error'', e)]\<rparr>)"
    by (cases "add u b") (auto simp: forget_def split: sum.splits)
  show ?case
    using Cons.IH [of "b\<lparr>links := [(''multiparturl'', m), (''torrenturl'', t),
        (''singleurl'', s @ map (locator (api b)) (raw_urls u)), (''error'', e)]\<rparr>"
        "s @ map (locator (api b)) (raw_urls u)"] us
    by (simp add: bnd_def a)
qed

text \<open>
  C5, as amended. In every state a bucket reaches, a sequence of calls of \<^verbatim>\<open>add\<close>,
  each with a non-empty string or with an array of strings, throws nothing and appends to
  the single partition one \<^verbatim>\<open>Url\<close> object per string, whose \<^verbatim>\<open>url\<close> is that
  string, in the order of the calls and of the arrays, duplicates included; the torrent,
  multipart and error partitions and the four figures stay as they were. The empty string
  as the argument itself is refused: \<^verbatim>\<open>add("")\<close> throws the message of
  \<^verbatim>\<open>add\<close> and leaves the bucket as it was (inside an array it is accepted like
  any other string).
\<close>

theorem add_appends_in_order:
  assumes "UrlBucket a s t m = (Inr (), b0)" and "run ops b0 = Some b"
    and "list_all url_arg us"
  shows "fst (adds us b) = Inr ()
    \<and> getSingleUrls (snd (adds us b)) =
        JArr (elems (getSingleUrls b) @ map (locator (api b)) (concat (map raw_urls us)))
    \<and> getTorrentUrls (snd (adds us b)) = getTorrentUrls b
    \<and> getMultipartUrls (snd (adds us b)) = getMultipartUrls b
    \<and> links_get (links (snd (adds us b))) ''error'' = links_get (links b) ''error''
    \<and> aggregates (snd (adds us b)) = aggregates b
    \<and> add (JStr []) b =
        (Inl (Thrown ''Add method takes only a string or an array as argument''), b)"
proof -
  have "links_ok (links b)"
    using history_inv [OF assms(1,2)] by (simp add: bucket_inv_def)
  then obtain m' t' s' e' where l:
    "links b = [(''multiparturl'', m'), (''torrenturl'', t'), (''singleurl'', s'), (''error'', e')]"
    by (rule links_okE)
  have empty: "add (JStr []) b =
        (Inl (Thrown ''Add method takes only a string or an array as argument''), b)"
    by (simp add: add_def throw_apply)
  show ?thesis
    unfolding adds_url_args [OF l assms(3)]
    using empty
    by (simp add: l getSingleUrls_def getTorrentUrls_def getMultipartUrls_def links_get_def
        aggregates_def)
qed

text \<open>A string, then an array with an empty string and a duplicate; and the empty
  string alone.\<close>

theorem add_appends_in_order_witness:
  "UrlBucket example_api JUndefined JUndefined JUndefined = (Inr (), fresh)
   \<and> run [Add (JStr ''http://a'')] fresh = Some staged
   \<and> list_all url_arg [JStr ''http://b'', JArr [JStr ''http://c'', JStr [], JStr ''http://b'']]
   \<and> getSingleUrls (snd (adds [JStr ''http://b'',
         JArr [JStr ''http://c'', JStr [], JStr ''http://b'']] staged)) =
       JArr [locator example_api ''http://a'', locator example_api ''http://b'',
             locator example_api ''http://c'', locator example_api [],
             locator example_api ''http://b'']
   \<and> add (JStr []) staged =
        (Inl (Thrown ''Add method takes only a string or an array as argument''), staged)"
proof -
  have h: "run [Add (JStr ''http://a'')] fresh = Some staged"
    by code_simp
  have v: "list_all url_arg [JStr ''http://b'', JArr [JStr ''http://c'', JStr [], JStr ''http://b'']]"
    by simp
  have g: "getSingleUrls staged = JArr [locator example_api ''http://a'']"
    by code_simp
  have a: "api staged = example_api"
    by code_simp
  show ?thesis
    using add_appends_in_order [OF create_fresh h v] h v create_fresh by (simp add: g a)
qed

text \<open>
  C5, as stated, fails at the empty string: \<^verbatim>\<open>url && typeof url === 'string'\<close> is
  false for it, so \<^verbatim>\<open>add("")\<close> throws and the single partition gets no entry.
\<close>

theorem add_empty_string_counterexample:
  "getSingleUrls fresh = JArr []
   \<and> add (JStr []) fresh =
       (Inl (Thrown ''Add method takes only a string or an array as argument''), fresh)
   \<and> getSingleUrls (snd (add (JStr []) fresh)) \<noteq> JArr [locator example_api []]"
  by code_simp

end
